theory Spec2Isabelle
  imports Complex_Main "HOL-Library.Multiset"
begin

section \<open>Python strings and sequences\<close>

text \<open>
  Texts are modelled as Isabelle strings, that is as lists of ASCII characters. The
  operations below are the Python string methods the study assistant calls, restricted to
  ASCII: \<^verbatim>\<open>str.isspace\<close>, \<^verbatim>\<open>str.lower\<close>, \<^verbatim>\<open>str.upper\<close>, \<^verbatim>\<open>str.split\<close> with and
  without a separator, \<^verbatim>\<open>str.strip\<close>, \<^verbatim>\<open>str.join\<close>, the substring test \<^verbatim>\<open>in\<close>,
  \<^verbatim>\<open>str.replace\<close> and \<^verbatim>\<open>str.endswith\<close>.
\<close>

datatype py_error = ValueError | IndexError | ZeroDivisionError | SearchError

definition isspace :: "char \<Rightarrow> bool" where
  \<comment> \<open>tab, line feed, vertical tab, form feed, carriage return, the four separators
      0x1C to 0x1F, and the space\<close>
  "isspace c = (c \<in> set [CHR 0x09, CHR 0x0A, CHR 0x0B, CHR 0x0C, CHR 0x0D,
                           CHR 0x1C, CHR 0x1D, CHR 0x1E, CHR 0x1F, CHR '' ''])"

definition upper_letters :: string where
  "upper_letters = ''ABCDEFGHIJKLMNOPQRSTUVWXYZ''"

definition lower_letters :: string where
  "lower_letters = ''abcdefghijklmnopqrstuvwxyz''"

definition digits :: string where
  "digits = ''0123456789''"

definition lower_char :: "char \<Rightarrow> char" where
  "lower_char c = (case map_of (zip upper_letters lower_letters) c of Some l \<Rightarrow> l | None \<Rightarrow> c)"

definition upper_char :: "char \<Rightarrow> char" where
  "upper_char c = (case map_of (zip lower_letters upper_letters) c of Some u \<Rightarrow> u | None \<Rightarrow> c)"

definition lower :: "string \<Rightarrow> string" where
  "lower s = map lower_char s"

definition upper :: "string \<Rightarrow> string" where
  "upper s = map upper_char s"

text \<open>
  \<open>runs P cur s\<close> cuts \<open>s\<close> into its maximal runs of characters that satisfy \<open>P\<close>;
  \<open>cur\<close> is the run being read. With \<open>P\<close> the non-blank characters this is
  \<^verbatim>\<open>s.split()\<close>, which drops leading, trailing and repeated blanks and never returns an
  empty word.
\<close>

fun runs :: "(char \<Rightarrow> bool) \<Rightarrow> string \<Rightarrow> string \<Rightarrow> string list" where
  "runs P cur [] = (if cur = [] then [] else [cur])"
| "runs P cur (c # cs) =
     (if P c then runs P (cur @ [c]) cs
      else if cur = [] then runs P [] cs
      else cur # runs P [] cs)"

definition split_ws :: "string \<Rightarrow> string list" where
  "split_ws s = runs (\<lambda>c. \<not> isspace c) [] s"

text \<open>\<^verbatim>\<open>s.split(d)\<close> for a one-character separator: empty pieces are kept.\<close>

fun split_on :: "char \<Rightarrow> string \<Rightarrow> string list" where
  "split_on d [] = [[]]"
| "split_on d (c # cs) =
     (if c = d then [] # split_on d cs
      else (case split_on d cs of
              [] \<Rightarrow> [[c]]
            | r # rs \<Rightarrow> (c # r) # rs))"

definition strip :: "string \<Rightarrow> string" where
  "strip s = rev (dropWhile isspace (rev (dropWhile isspace s)))"

fun join :: "string \<Rightarrow> string list \<Rightarrow> string" where
  "join sep [] = []"
| "join sep [x] = x"
| "join sep (x # y # ys) = x @ sep @ join sep (y # ys)"

definition startswith :: "string \<Rightarrow> string \<Rightarrow> bool" where
  "startswith s p = (take (length p) s = p)"

definition endswith :: "string \<Rightarrow> string \<Rightarrow> bool" where
  "endswith s p = startswith (rev s) (rev p)"

text \<open>\<^verbatim>\<open>sub in s\<close>: \<open>sub\<close> occurs in \<open>s\<close> as a substring.\<close>

fun contains :: "string \<Rightarrow> string \<Rightarrow> bool" where
  "contains sub [] = (sub = [])"
| "contains sub (c # cs) = (startswith (c # cs) sub \<or> contains sub cs)"

text \<open>\<^verbatim>\<open>s.replace(old, new, 1)\<close> for a non-empty \<open>old\<close>: the leftmost occurrence only.\<close>

fun replace_first :: "string \<Rightarrow> string \<Rightarrow> string \<Rightarrow> string" where
  "replace_first old new [] = []"
| "replace_first old new (c # cs) =
     (if startswith (c # cs) old then new @ drop (length old) (c # cs)
      else c # replace_first old new cs)"

text \<open>\<^verbatim>\<open>s.replace(old, new)\<close>: every occurrence, left to right, without overlap.\<close>

function replace_all :: "string \<Rightarrow> string \<Rightarrow> string \<Rightarrow> string" where
  "replace_all old new [] = (if old = [] then new else [])"
| "replace_all old new (c # cs) =
     (if old = [] then new @ c # replace_all old new cs
      else if startswith (c # cs) old
        then new @ replace_all old new (drop (length old) (c # cs))
      else c # replace_all old new cs)"
  by pat_completeness auto
termination
  by (relation "measure (\<lambda>(old, new, s). length s)") auto

text \<open>
  The two regular expressions of the program. Every match of \<^verbatim>\<open>\b\w+\b\<close> starts and
  ends at a word boundary and holds word characters only, so the matches are the maximal
  runs of word characters. A match of \<^verbatim>\<open>\b[A-Z][a-z]+\b\<close> is likewise a whole run, one
  that is an upper-case letter followed by one or more lower-case letters.
\<close>

definition is_word_char :: "char \<Rightarrow> bool" where
  "is_word_char c = (c \<in> set (upper_letters @ lower_letters @ digits @ ''_''))"

definition findall_words :: "string \<Rightarrow> string list" where
  "findall_words s = runs is_word_char [] s"

definition is_capitalized :: "string \<Rightarrow> bool" where
  "is_capitalized w =
     (case w of
        [] \<Rightarrow> False
      | c # cs \<Rightarrow> c \<in> set upper_letters \<and> cs \<noteq> [] \<and> list_all (\<lambda>d. d \<in> set lower_letters) cs)"

definition findall_capitalized :: "string \<Rightarrow> string list" where
  "findall_capitalized s = filter is_capitalized (findall_words s)"

text \<open>\<^verbatim>\<open>str(n)\<close> for a natural number, \<^verbatim>\<open>chr(65 + k)\<close>, and \<^verbatim>\<open>xs.index(x)\<close>.\<close>

function str_of_nat :: "nat \<Rightarrow> string" where
  "str_of_nat n =
     (if n < 10 then [digits ! n] else str_of_nat (n div 10) @ [digits ! (n mod 10)])"
  by pat_completeness auto
termination
  by (relation "measure id") auto

declare str_of_nat.simps [simp del]

definition letter :: "nat \<Rightarrow> string" where
  "letter k = [char_of (65 + k)]"

fun index_of :: "'a \<Rightarrow> 'a list \<Rightarrow> nat option" where
  "index_of x [] = None"
| "index_of x (y # ys) =
     (if x = y then Some 0 else map_option Suc (index_of x ys))"

fun enumerate_from :: "nat \<Rightarrow> 'a list \<Rightarrow> (nat \<times> 'a) list" where
  "enumerate_from k [] = []"
| "enumerate_from k (x # xs) = (k, x) # enumerate_from (Suc k) xs"

text \<open>
  Python's slice \<^verbatim>\<open>xs[a:b]\<close>: a negative bound counts from the end, and both bounds are
  clamped to the list.
\<close>

definition slice_bound :: "nat \<Rightarrow> int \<Rightarrow> nat" where
  "slice_bound n i = (if i < 0 then nat (max 0 (int n + i)) else min n (nat i))"

definition py_slice :: "'a list \<Rightarrow> int \<Rightarrow> int \<Rightarrow> 'a list" where
  "py_slice xs a b =
     (let lo = slice_bound (length xs) a; hi = slice_bound (length xs) b
      in take (hi - lo) (drop lo xs))"

text \<open>
  \<^verbatim>\<open>range(i, stop, step)\<close> as the list of the values it yields. A step of zero, which
  Python rejects with a ValueError, is handled by the caller.
\<close>

function py_range :: "int \<Rightarrow> int \<Rightarrow> int \<Rightarrow> int list" where
  "py_range i stop step =
     (if 0 < step \<and> i < stop then i # py_range (i + step) stop step
      else if step < 0 \<and> stop < i then i # py_range (i + step) stop step
      else [])"
  by pat_completeness auto
termination
  by (relation "measure (\<lambda>(i, stop, step). nat (if 0 < step then stop - i else i - stop))")
     auto

declare py_range.simps [simp del]

section \<open>The text chunker\<close>

text \<open>
  \<^verbatim>\<open>DocumentProcessor\<close> holds the two integers of the configuration.
  \<^verbatim>\<open>_create_chunks\<close> walks \<^verbatim>\<open>range(0, len(words), chunk_size - chunk_overlap)\<close> and
  appends \<^verbatim>\<open>' '.join(words[i:i + chunk_size])\<close> for every index it yields.
\<close>

record document_processor =
  chunk_size :: int
  chunk_overlap :: int

definition create_chunks :: "document_processor \<Rightarrow> string \<Rightarrow> py_error + string list" where
  "create_chunks self text =
     (let words = split_ws text;
          step = chunk_size self - chunk_overlap self
      in if step = 0 then Inl ValueError
         else Inr (map (\<lambda>i. join '' '' (py_slice words i (i + chunk_size self)))
                       (py_range 0 (int (length words)) step)))"

text \<open>
  The window of the specification: up to \<open>sz\<close> consecutive words from index \<open>start\<close>.
\<close>

definition window :: "string list \<Rightarrow> nat \<Rightarrow> int \<Rightarrow> string list" where
  "window words start sz = take (nat sz) (drop start words)"

section \<open>The difficulty scorer\<close>

text \<open>
  \<^verbatim>\<open>DifficultyAssessor\<close> holds the ten technical terms. Python's floats are idealised as
  real numbers: the scorer only adds, multiplies and divides non-negative quantities and
  takes a minimum. The sentence tokenizer \<^verbatim>\<open>nltk.sent_tokenize\<close> is a library function
  and stays a parameter \<open>sent_tokenize\<close>.
\<close>

record difficulty_assessor =
  complex_words :: "string list"

definition new_difficulty_assessor :: difficulty_assessor where
  "new_difficulty_assessor =
     \<lparr>complex_words =
        [''analyze'', ''synthesize'', ''evaluate'', ''hypothesis'', ''methodology'',
         ''paradigm'', ''phenomenon'', ''conceptual'', ''theoretical'', ''empirical'']\<rparr>"

definition vowels :: string where
  "vowels = ''aeiouy''"

text \<open>
  The loop of \<^verbatim>\<open>_count_syllables\<close> over the characters of the word, with its two
  variables \<^verbatim>\<open>syllables\<close> and \<^verbatim>\<open>prev_was_vowel\<close>.
\<close>

fun vowel_groups :: "string \<Rightarrow> int \<Rightarrow> bool \<Rightarrow> int" where
  "vowel_groups [] syllables prev_was_vowel = syllables"
| "vowel_groups (c # cs) syllables prev_was_vowel =
     (if c \<in> set vowels
      then vowel_groups cs (if \<not> prev_was_vowel then syllables + 1 else syllables) True
      else vowel_groups cs syllables False)"

definition count_syllables :: "string \<Rightarrow> int" where
  "count_syllables word =
     (let syllables = vowel_groups (lower word) 0 False;
          syllables = (if endswith word ''e'' then syllables - 1 else syllables);
          syllables = (if syllables = 0 then 1 else syllables)
      in syllables)"

record metrics =
  avg_sentence_length :: real
  complex_word_ratio :: real
  syllable_density :: real
  technical_term_ratio :: real

definition calculate_metrics ::
  "(string \<Rightarrow> string list) \<Rightarrow> difficulty_assessor \<Rightarrow> string \<Rightarrow> metrics" where
  "calculate_metrics sent_tokenize self text =
     (let sentences = sent_tokenize text;
          words = findall_words (lower text);
          avg_len = (if sentences \<noteq> [] then real (length words) / real (length sentences)
                     else 0);
          complex = filter (\<lambda>word. count_syllables word \<ge> 3) words;
          complex_ratio = (if words \<noteq> [] then real (length complex) / real (length words)
                           else 0);
          total_syllables = sum_list (map count_syllables words);
          density = (if words \<noteq> [] then real_of_int total_syllables / real (length words)
                     else 0);
          technical = filter (\<lambda>word. word \<in> set (complex_words self)) words;
          technical_ratio = (if words \<noteq> [] then real (length technical) / real (length words)
                             else 0)
      in \<lparr>avg_sentence_length = avg_len,
          complex_word_ratio = complex_ratio * 100,
          syllable_density = density,
          technical_term_ratio = technical_ratio * 100\<rparr>)"

definition assess_text_difficulty ::
  "(string \<Rightarrow> string list) \<Rightarrow> difficulty_assessor \<Rightarrow> string \<Rightarrow> real" where
  "assess_text_difficulty sent_tokenize self text =
     (let m = calculate_metrics sent_tokenize self text;
          difficulty_score =
            avg_sentence_length m * 0.2 + complex_word_ratio m * 0.3 +
            syllable_density m * 0.3 + technical_term_ratio m * 0.2
      in min 1.0 (difficulty_score / 100))"

section \<open>The vector store\<close>

text \<open>
  The store is a thin wrapper around an external database. Of a search only the first
  entries of \<^verbatim>\<open>documents\<close> and \<^verbatim>\<open>metadatas\<close> are read, so a result is these two lists;
  the metadata stay abstract. The database call itself is the field \<open>search\<close>, which
  may raise.
\<close>

record 'm search_results =
  documents :: "string list"
  metadatas :: "'m list"

record 'm vector_store =
  search :: "string \<Rightarrow> int \<Rightarrow> py_error + 'm search_results"

section \<open>The quiz generator\<close>

text \<open>
  A question is a dictionary whose \<^verbatim>\<open>type\<close> entry fixes its other entries; the three
  shapes are the three constructors. The options of a multiple-choice question are a
  dictionary in insertion order, here the list of its items.
\<close>

datatype question =
  MultipleChoice string "(string \<times> string) list" string
| TrueFalse string string
| ShortAnswer string string

record quiz =
  topic :: string
  num_questions :: nat
  questions :: "question list"
  quiz_type :: string

text \<open>
  \<^verbatim>\<open>generate_quiz\<close> returns either the dictionary \<^verbatim>\<open>{"error": ...}\<close> or a quiz.
\<close>

datatype quiz_result = NoContent string | Quiz quiz

text \<open>
  The calls of \<^verbatim>\<open>random.choice\<close> and \<^verbatim>\<open>random.shuffle\<close> are answered by an oracle,
  asked with the index of the loop iteration that makes the call. \<open>fair\<close> says what the
  library guarantees: a choice is an element of the list, a shuffle a permutation of it.
\<close>

record rng =
  choice_term :: "nat \<Rightarrow> string list \<Rightarrow> string"
  choice_starter :: "nat \<Rightarrow> string list \<Rightarrow> string"
  shuffle_options :: "nat \<Rightarrow> string list \<Rightarrow> string list"
  shuffle_questions :: "question list \<Rightarrow> question list"

definition fair :: "rng \<Rightarrow> bool" where
  "fair r =
     ((\<forall>i xs. xs \<noteq> [] \<longrightarrow> choice_term r i xs \<in> set xs) \<and>
      (\<forall>i xs. xs \<noteq> [] \<longrightarrow> choice_starter r i xs \<in> set xs) \<and>
      (\<forall>i xs. mset (shuffle_options r i xs) = mset xs) \<and>
      (\<forall>qs. mset (shuffle_questions r qs) = mset qs))"

text \<open>
  The candidate sentences:
  \<^verbatim>\<open>[s.strip() for s in content.split('.') if len(s.strip()) > 20]\<close>.
\<close>

definition candidate_sentences :: "string \<Rightarrow> string list" where
  "candidate_sentences content =
     map strip (filter (\<lambda>s. length (strip s) > 20) (split_on CHR ''.'' content))"

text \<open>
  The indices of \<^verbatim>\<open>range(min(num_questions, len(sentences)))\<close>; a negative
  \<^verbatim>\<open>num_questions\<close> gives none.
\<close>

definition question_indices :: "int \<Rightarrow> string list \<Rightarrow> nat list" where
  "question_indices num sentences = [0 ..< nat (min num (int (length sentences)))]"

definition dummy_options :: "string list" where
  "dummy_options = [''Option A'', ''Option B'', ''Option C'']"

text \<open>
  One iteration of \<^verbatim>\<open>_generate_multiple_choice\<close>: \<open>None\<close> is the \<^verbatim>\<open>continue\<close> of a
  sentence without capitalised word; \<^verbatim>\<open>options.index\<close> raises a ValueError when the
  term is not in the list.
\<close>

definition multiple_choice_item :: "rng \<Rightarrow> nat \<Rightarrow> string \<Rightarrow> py_error + question option" where
  "multiple_choice_item r i sentence =
     (let words = findall_capitalized sentence
      in if words = [] then Inr None
         else
           let key_term = choice_term r i words;
               question_text = replace_all key_term ''____'' sentence;
               options = shuffle_options r i ([key_term] @ take 3 dummy_options)
           in case index_of key_term options of
                None \<Rightarrow> Inl ValueError
              | Some k \<Rightarrow>
                  Inr (Some (MultipleChoice
                    (''Fill in the blank: '' @ question_text)
                    (map (\<lambda>(j, opt). (letter j, opt)) (enumerate_from 0 options))
                    (letter k))))"

fun multiple_choice_loop :: "rng \<Rightarrow> string list \<Rightarrow> nat list \<Rightarrow> py_error + question list" where
  "multiple_choice_loop r sentences [] = Inr []"
| "multiple_choice_loop r sentences (i # is) =
     (case multiple_choice_item r i (sentences ! i) of
        Inl e \<Rightarrow> Inl e
      | Inr None \<Rightarrow> multiple_choice_loop r sentences is
      | Inr (Some q) \<Rightarrow>
          (case multiple_choice_loop r sentences is of
             Inl e \<Rightarrow> Inl e
           | Inr qs \<Rightarrow> Inr (q # qs)))"

definition generate_multiple_choice :: "rng \<Rightarrow> string \<Rightarrow> int \<Rightarrow> py_error + question list" where
  "generate_multiple_choice r content num =
     (let sentences = candidate_sentences content
      in multiple_choice_loop r sentences (question_indices num sentences))"

definition modifications :: "(string \<times> string) list" where
  "modifications =
     [(''is'', ''is not''), (''was'', ''was not''), (''can'', ''cannot''),
      (''will'', ''will not''), (''should'', ''should not'')]"

fun modify_loop :: "(string \<times> string) list \<Rightarrow> string \<Rightarrow> string" where
  "modify_loop [] sentence = sentence"
| "modify_loop ((original, replacement) # rest) sentence =
     (if contains original (lower sentence)
      then replace_first original replacement (lower sentence)
      else modify_loop rest sentence)"

definition modify_sentence_for_false :: "string \<Rightarrow> string" where
  "modify_sentence_for_false sentence = modify_loop modifications sentence"

definition true_false_item :: "nat \<Rightarrow> string \<Rightarrow> question" where
  "true_false_item i sentence =
     (let is_true = (i mod 2 = 0);
          question_text = (if \<not> is_true then modify_sentence_for_false sentence else sentence)
      in TrueFalse (''True or False: '' @ question_text)
                   (if is_true then ''True'' else ''False''))"

fun true_false_loop :: "string list \<Rightarrow> nat list \<Rightarrow> question list" where
  "true_false_loop sentences [] = []"
| "true_false_loop sentences (i # is) =
     true_false_item i (sentences ! i) # true_false_loop sentences is"

definition generate_true_false :: "string \<Rightarrow> int \<Rightarrow> question list" where
  "generate_true_false content num =
     (let sentences = candidate_sentences content
      in true_false_loop sentences (question_indices num sentences))"

definition question_starters :: "string list" where
  "question_starters =
     [''What is'', ''How does'', ''Why is'', ''When did'', ''Where is'',
      ''Who was'', ''Which'', ''Explain'', ''Describe'', ''Define'']"

definition short_answer_item :: "rng \<Rightarrow> nat \<Rightarrow> string \<Rightarrow> question option" where
  "short_answer_item r i sentence =
     (let starter = choice_starter r i question_starters;
          words = split_ws sentence
      in if length words > 5
         then let key_concept = join '' '' (py_slice words 0 3)
              in Some (ShortAnswer (starter @ '' '' @ lower key_concept @ ''?'') sentence)
         else None)"

fun short_answer_loop :: "rng \<Rightarrow> string list \<Rightarrow> nat list \<Rightarrow> question list" where
  "short_answer_loop r sentences [] = []"
| "short_answer_loop r sentences (i # is) =
     (case short_answer_item r i (sentences ! i) of
        None \<Rightarrow> short_answer_loop r sentences is
      | Some q \<Rightarrow> q # short_answer_loop r sentences is)"

definition generate_short_answer :: "rng \<Rightarrow> string \<Rightarrow> int \<Rightarrow> question list" where
  "generate_short_answer r content num =
     (let sentences = candidate_sentences content
      in short_answer_loop r sentences (question_indices num sentences))"

text \<open>Python's \<^verbatim>\<open>//\<close> rounds down, as \<open>div\<close> on the integers does.\<close>

definition generate_mixed_quiz :: "rng \<Rightarrow> string \<Rightarrow> int \<Rightarrow> py_error + question list" where
  "generate_mixed_quiz r content num =
     (let mc_count = num div 3;
          tf_count = num div 3;
          sa_count = num - mc_count - tf_count
      in case generate_multiple_choice r content mc_count of
           Inl e \<Rightarrow> Inl e
         | Inr mc \<Rightarrow>
             Inr (shuffle_questions r
                    (mc @ generate_true_false content tf_count
                        @ generate_short_answer r content sa_count)))"

definition generate_quiz ::
  "'m vector_store \<Rightarrow> rng \<Rightarrow> string \<Rightarrow> int \<Rightarrow> string \<Rightarrow> py_error + quiz_result" where
  "generate_quiz store r topic_name num qtype =
     (case search store topic_name 10 of
        Inl e \<Rightarrow> Inl e
      | Inr search_results \<Rightarrow>
          if documents search_results = []
          then Inr (NoContent ''No content found for this topic'')
          else
            let content = join '' '' (documents search_results);
                generated =
                  (if qtype = ''multiple_choice'' then generate_multiple_choice r content num
                   else if qtype = ''true_false'' then Inr (generate_true_false content num)
                   else if qtype = ''short_answer''
                     then Inr (generate_short_answer r content num)
                   else generate_mixed_quiz r content num)
            in case generated of
                 Inl e \<Rightarrow> Inl e
               | Inr qs \<Rightarrow>
                   Inr (Quiz \<lparr>topic = topic_name, num_questions = length qs,
                              questions = qs, quiz_type = qtype\<rparr>))"

subsection \<open>Evaluation\<close>

text \<open>
  Python sets are lists without repetition. The comparison
  \<^verbatim>\<open>len(matching_words) >= len(key_words) * 0.3\<close> is taken over the reals. The
  double nearest to 0.3 lies below it by less than \<open>2 / 10 ^ 17\<close>, and a product with it
  is rounded monotonically, so for every list that fits in memory the floating-point
  comparison of an integer with this product has the same outcome as the exact one.
\<close>

definition evaluate_short_answer :: "string \<Rightarrow> string \<Rightarrow> bool" where
  "evaluate_short_answer user_answer sample_answer =
     (let user_words = remdups (split_ws (lower user_answer));
          sample_words = remdups (split_ws (lower sample_answer));
          key_words = filter (\<lambda>word. length word > 3) sample_words;
          matching_words = filter (\<lambda>word. word \<in> set (remdups key_words)) user_words
      in real (length matching_words) \<ge> real (length key_words) * 0.3)"

definition calculate_grade :: "real \<Rightarrow> string" where
  "calculate_grade percentage =
     (if percentage \<ge> 90 then ''A''
      else if percentage \<ge> 80 then ''B''
      else if percentage \<ge> 70 then ''C''
      else if percentage \<ge> 60 then ''D''
      else ''F'')"

record question_result =
  result_question :: string
  result_user_answer :: string
  result_correct_answer :: string
  result_is_correct :: bool

record evaluation =
  score :: nat
  total_questions :: nat
  percentage :: real
  grade :: string
  results :: "question_result list"

text \<open>The body of the loop of \<^verbatim>\<open>evaluate_quiz\<close> for one question and its answer.\<close>

fun is_correct :: "question \<Rightarrow> string \<Rightarrow> bool" where
  "is_correct (MultipleChoice text opts correct) user_answer =
     (upper user_answer = upper correct)"
| "is_correct (TrueFalse text correct) user_answer = (upper user_answer = upper correct)"
| "is_correct (ShortAnswer text sample) user_answer =
     evaluate_short_answer user_answer sample"

fun question_text :: "question \<Rightarrow> string" where
  "question_text (MultipleChoice text opts correct) = text"
| "question_text (TrueFalse text correct) = text"
| "question_text (ShortAnswer text sample) = text"

fun reference_answer :: "question \<Rightarrow> string" where
  "reference_answer (MultipleChoice text opts correct) = correct"
| "reference_answer (TrueFalse text correct) = correct"
| "reference_answer (ShortAnswer text sample) = sample"

definition lookup_answer :: "(string \<rightharpoonup> string) \<Rightarrow> nat \<Rightarrow> string" where
  "lookup_answer user_answers i =
     (case user_answers (str_of_nat i) of None \<Rightarrow> [] | Some a \<Rightarrow> a)"

fun evaluate_loop ::
  "(string \<rightharpoonup> string) \<Rightarrow> (nat \<times> question) list \<Rightarrow> nat \<times> question_result list" where
  "evaluate_loop user_answers [] = (0, [])"
| "evaluate_loop user_answers ((i, q) # rest) =
     (let user_answer = lookup_answer user_answers i;
          correct = is_correct q user_answer;
          (rest_score, rest_results) = evaluate_loop user_answers rest
      in ((if correct then 1 else 0) + rest_score,
          \<lparr>result_question = question_text q, result_user_answer = user_answer,
           result_correct_answer = reference_answer q, result_is_correct = correct\<rparr>
          # rest_results))"

text \<open>Python's \<^verbatim>\<open>/\<close> raises a ZeroDivisionError on a zero divisor.\<close>

definition py_truediv :: "nat \<Rightarrow> nat \<Rightarrow> py_error + real" where
  "py_truediv a b = (if b = 0 then Inl ZeroDivisionError else Inr (real a / real b))"

definition evaluate_quiz :: "quiz \<Rightarrow> (string \<rightharpoonup> string) \<Rightarrow> py_error + evaluation" where
  "evaluate_quiz q user_answers =
     (let total = length (questions q);
          (points, rs) = evaluate_loop user_answers (enumerate_from 0 (questions q));
          pct = (if total > 0
                 then (case py_truediv points total of
                         Inl e \<Rightarrow> Inl e
                       | Inr ratio \<Rightarrow> Inr (ratio * 100))
                 else Inr 0)
      in case pct of
           Inl e \<Rightarrow> Inl e
         | Inr p \<Rightarrow>
             Inr \<lparr>score = points, total_questions = total, percentage = p,
                  grade = calculate_grade p, results = rs\<rparr>)"

section \<open>The retrieval engine\<close>

text \<open>
  The state of a \<^verbatim>\<open>RAGEngine\<close>: the store it searches, its difficulty assessor and the
  history of the questions asked. A method that changes the state returns the new state
  beside its result; a method that raises returns the error in place of the result.
\<close>

record 'm rag_engine =
  vector_store :: "'m vector_store"
  assessor :: difficulty_assessor
  query_history :: "string list"

text \<open>The bands of \<^verbatim>\<open>Config.DIFFICULTY_LEVELS\<close>, with the default of the lookup.\<close>

definition difficulty_levels :: "string \<Rightarrow> real \<times> real" where
  "difficulty_levels level =
     (if level = ''beginner'' then (0.0, 0.3)
      else if level = ''intermediate'' then (0.3, 0.7)
      else if level = ''advanced'' then (0.7, 1.0)
      else (0.0, 1.0))"

definition matches_difficulty_level :: "real \<Rightarrow> string \<Rightarrow> bool" where
  "matches_difficulty_level doc_difficulty target_level =
     (let level_range = difficulty_levels target_level
      in fst level_range \<le> doc_difficulty \<and> doc_difficulty \<le> snd level_range)"

text \<open>
  The loop of \<^verbatim>\<open>_filter_by_difficulty\<close>; reading the metadata of a kept document
  raises an IndexError when the list of metadata is too short.
\<close>

fun filter_loop ::
  "(string \<Rightarrow> bool) \<Rightarrow> 'm list \<Rightarrow> (nat \<times> string) list \<Rightarrow> py_error + string list \<times> 'm list" where
  "filter_loop keep metas [] = Inr ([], [])"
| "filter_loop keep metas ((i, doc) # rest) =
     (if keep doc
      then (if i < length metas
            then (case filter_loop keep metas rest of
                    Inl e \<Rightarrow> Inl e
                  | Inr (docs, ms) \<Rightarrow> Inr (doc # docs, metas ! i # ms))
            else Inl IndexError)
      else filter_loop keep metas rest)"

definition filter_by_difficulty ::
  "(string \<Rightarrow> string list) \<Rightarrow> 'm rag_engine \<Rightarrow> 'm search_results \<Rightarrow> string
     \<Rightarrow> py_error + 'm search_results" where
  "filter_by_difficulty sent_tokenize self search_results difficulty_level =
     (case filter_loop
             (\<lambda>doc. matches_difficulty_level
                      (assess_text_difficulty sent_tokenize (assessor self) doc)
                      difficulty_level)
             (metadatas search_results)
             (enumerate_from 0 (documents search_results)) of
        Inl e \<Rightarrow> Inl e
      | Inr (docs, ms) \<Rightarrow> Inr \<lparr>documents = docs, metadatas = ms\<rparr>)"

definition newline :: char where
  "newline = CHR 0x0A"

definition apostrophe :: char where
  "apostrophe = CHR 0x27"

definition generate_response :: "string \<Rightarrow> 'm search_results \<Rightarrow> string" where
  "generate_response question_str search_results =
     (if documents search_results = []
      then ''I couldn'' @ [apostrophe] @ ''t find relevant information in your study materials. Try uploading more documents or rephrasing your question.''
      else
        let context = join '' '' (py_slice (documents search_results) 0 3)
        in ''Based on your study materials:'' @ [newline, newline] @ py_slice context 0 500
             @ ''...'')"

definition assess_understanding_level :: "string \<Rightarrow> string" where
  "assess_understanding_level question_str =
     (let question_words = split_ws (lower question_str);
          beginner_indicators =
            [''what'', ''is'', ''define'', ''explain'', ''basic'', ''simple''];
          advanced_indicators =
            [''analyze'', ''compare'', ''evaluate'', ''synthesize'', ''critique''];
          beginner_count =
            length (filter (\<lambda>word. word \<in> set question_words) beginner_indicators);
          advanced_count =
            length (filter (\<lambda>word. word \<in> set question_words) advanced_indicators)
      in if advanced_count > beginner_count then ''advanced''
         else if beginner_count > 0 then ''beginner''
         else ''intermediate'')"

definition suggest_actions :: "string \<Rightarrow> string \<Rightarrow> string list" where
  "suggest_actions question_str understanding_level =
     (if understanding_level = ''beginner''
      then [''Try asking for a more detailed explanation'',
            ''Request examples to illustrate the concept'']
      else if understanding_level = ''intermediate''
      then [''Ask for related concepts to explore'',
            ''Request practice questions on this topic'']
      else [''Ask for critical analysis of this topic'',
            ''Request connections to other advanced concepts''])"

record 'm query_answer =
  answer_question :: string
  answer_response :: string
  answer_sources :: "'m search_results"
  answer_understanding_level :: string
  answer_suggested_actions :: "string list"

text \<open>
  \<^verbatim>\<open>query\<close>. The history is extended first; the search and the filter may raise after
  that. \<^verbatim>\<open>if difficulty_level:\<close> skips both \<^verbatim>\<open>None\<close> and the empty string.
\<close>

definition query ::
  "(string \<Rightarrow> string list) \<Rightarrow> 'm rag_engine \<Rightarrow> string \<Rightarrow> int \<Rightarrow> string option
     \<Rightarrow> (py_error + 'm query_answer) \<times> 'm rag_engine" where
  "query sent_tokenize self question_str n_results difficulty_level =
     (let self = self\<lparr>query_history := query_history self @ [question_str]\<rparr>
      in case search (vector_store self) question_str n_results of
           Inl e \<Rightarrow> (Inl e, self)
         | Inr found \<Rightarrow>
             (case (case difficulty_level of
                      None \<Rightarrow> Inr found
                    | Some level \<Rightarrow>
                        if level = [] then Inr found
                        else filter_by_difficulty sent_tokenize self found level) of
                Inl e \<Rightarrow> (Inl e, self)
              | Inr search_results \<Rightarrow>
                  let response = generate_response question_str search_results;
                      understanding_level = assess_understanding_level question_str
                  in (Inr \<lparr>answer_question = question_str,
                           answer_response = response,
                           answer_sources = search_results,
                           answer_understanding_level = understanding_level,
                           answer_suggested_actions =
                             suggest_actions question_str understanding_level\<rparr>,
                      self)))"

text \<open>
  The loop of \<^verbatim>\<open>_create_simplified_explanation\<close> over \<^verbatim>\<open>sentences[:3]\<close>.
\<close>

fun simple_loop :: "string list \<Rightarrow> string list" where
  "simple_loop [] = []"
| "simple_loop (sentence # rest) =
     (if length (split_ws sentence) < 20 then strip sentence # simple_loop rest
      else simple_loop rest)"

definition create_simplified_explanation :: "string \<Rightarrow> string \<Rightarrow> string" where
  "create_simplified_explanation question_str context =
     (let sentences = split_on CHR ''.'' context;
          simple_sentences = simple_loop (py_slice sentences 0 3)
      in if simple_sentences \<noteq> []
         then ''Here'' @ [apostrophe] @ ''s a simple explanation:'' @ [newline, newline]
                @ join ''. '' simple_sentences @ ''.''
         else ''Let me explain this in simple terms:'' @ [newline, newline]
                @ py_slice context 0 200 @ ''...'')"

datatype 'm explanation =
  NotFound string
| Explained string string "'m search_results" string

definition explain_like_im_five :: "'m rag_engine \<Rightarrow> string \<Rightarrow> py_error + 'm explanation" where
  "explain_like_im_five self question_str =
     (case search (vector_store self) question_str 2 of
        Inl e \<Rightarrow> Inl e
      | Inr search_results \<Rightarrow>
          if documents search_results = []
          then Inr (NotFound (''I couldn'' @ [apostrophe] @ ''t find information about that topic. Try uploading more study materials!''))
          else
            let context = join '' '' (documents search_results);
                simplified_response = create_simplified_explanation question_str context
            in Inr (Explained question_str simplified_response search_results ''beginner''))"

text \<open>
  \<^verbatim>\<open>_extract_common_topics\<close> fills a dictionary, which keeps its keys in the order of
  their first insertion: \<open>bump\<close> is \<^verbatim>\<open>topic_counts[word] = topic_counts.get(word, 0) + 1\<close>.
\<close>

fun bump :: "string \<Rightarrow> (string \<times> nat) list \<Rightarrow> (string \<times> nat) list" where
  "bump word [] = [(word, 1)]"
| "bump word ((k, n) # rest) =
     (if k = word then (k, n + 1) # rest else (k, n) # bump word rest)"

fun count_words :: "string list \<Rightarrow> (string \<times> nat) list \<Rightarrow> (string \<times> nat) list" where
  "count_words [] topic_counts = topic_counts"
| "count_words (word # rest) topic_counts =
     count_words rest (if length word > 3 then bump word topic_counts else topic_counts)"

fun count_queries :: "string list \<Rightarrow> (string \<times> nat) list \<Rightarrow> (string \<times> nat) list" where
  "count_queries [] topic_counts = topic_counts"
| "count_queries (q # rest) topic_counts =
     count_queries rest (count_words (findall_words (lower q)) topic_counts)"

definition extract_common_topics :: "string list \<Rightarrow> (string \<times> nat) list" where
  "extract_common_topics queries = count_queries queries []"

text \<open>
  \<^verbatim>\<open>sorted(items, key=lambda x: x[1], reverse=True)\<close> is stable: it orders by falling
  count and keeps entries of equal count in their order. \<open>sort_key\<close> is a stable
  insertion sort, here on the negated count.
\<close>

definition sorted_topics :: "(string \<times> nat) list \<Rightarrow> (string \<times> nat) list" where
  "sorted_topics common_topics = sort_key (\<lambda>x. - int (snd x)) common_topics"

definition weak_area_message :: "string \<Rightarrow> nat \<Rightarrow> string" where
  "weak_area_message t n =
     ''You'' @ [apostrophe] @ ''ve asked about '' @ [apostrophe] @ t @ [apostrophe]
       @ '' '' @ str_of_nat n @ '' times - consider reviewing this topic''"

fun weak_loop :: "(string \<times> nat) list \<Rightarrow> string list" where
  "weak_loop [] = []"
| "weak_loop ((t, n) # rest) =
     (if n \<ge> 3 then weak_area_message t n # weak_loop rest else weak_loop rest)"

definition identify_weak_areas :: "(string \<times> nat) list \<Rightarrow> string list" where
  "identify_weak_areas common_topics =
     (let weak_areas = weak_loop (py_slice (sorted_topics common_topics) 0 5)
      in if weak_areas \<noteq> [] then weak_areas
         else [''No specific weak areas identified yet''])"

definition find_knowledge_gaps :: "'m rag_engine \<Rightarrow> string list" where
  "find_knowledge_gaps self =
     (if length (query_history self) < 5
      then [''Upload more documents and ask more questions to identify knowledge gaps!'']
      else identify_weak_areas (extract_common_topics (query_history self)))"

section \<open>Three rules in the words of the specification\<close>

text \<open>
  The specification describes the statement of a false item as the sentence with the
  first matching pair of the list applied, unchanged when no pair matches. Read to the
  letter, the pairs are tried on the sentence itself and the replacement is made in it.
\<close>

fun negation_as_specified_loop :: "(string \<times> string) list \<Rightarrow> string \<Rightarrow> string" where
  "negation_as_specified_loop [] sentence = sentence"
| "negation_as_specified_loop ((original, replacement) # rest) sentence =
     (if contains original sentence then replace_first original replacement sentence
      else negation_as_specified_loop rest sentence)"

definition negation_as_specified :: "string \<Rightarrow> string" where
  "negation_as_specified sentence = negation_as_specified_loop modifications sentence"

text \<open>
  The specification describes the simple explanation as the first three sentences of the
  context whose word count is below 20, joined with a full stop and a blank, and the
  first 200 characters of the context when no sentence qualifies. Read to the letter,
  the sentences are filtered first and the first three of the rest are taken.
\<close>

definition explanation_as_specified :: "string \<Rightarrow> string" where
  "explanation_as_specified context =
     (let qualifying = filter (\<lambda>s. length (split_ws s) < 20) (split_on CHR ''.'' context)
      in if qualifying \<noteq> [] then join ''. '' (map strip (take 3 qualifying))
         else take 200 context)"

text \<open>
  The words the knowledge-gap analysis counts, as the specification describes them: the
  words of all questions of the history, lower-cased, that are longer than three
  characters, in their order.
\<close>

definition history_words :: "string list \<Rightarrow> string list" where
  "history_words queries =
     filter (\<lambda>word. length word > 3) (concat (map (\<lambda>q. findall_words (lower q)) queries))"

section \<open>Basic facts about slices\<close>

lemma py_slice_prefix: "py_slice xs 0 (int n) = take n xs"
  by (simp add: py_slice_def slice_bound_def Let_def min_def)

section \<open>Properties of the chunker\<close>

lemma py_range_up:
  "0 < step \<Longrightarrow>
   py_range i stop step = map (\<lambda>j. i + int j * step) [0 ..< nat (- ((i - stop) div step))]"
proof (induction i stop step rule: py_range.induct)
  case (1 i stop step)
  show ?case
  proof (cases "i < stop")
    case True
    have d: "(i + step - stop) div step = (i - stop) div step + 1"
      using "1.prems" by (metis add.commute add_diff_eq div_add_self1 less_irrefl)
    have neg: "(i - stop) div step < 0"
      using True "1.prems" by (simp add: pos_imp_zdiv_neg_iff)
    have n: "nat (- ((i - stop) div step)) = Suc (nat (- ((i + step - stop) div step)))"
      using d neg by simp
    have ih: "py_range (i + step) stop step =
        map (\<lambda>j. i + step + int j * step) [0 ..< nat (- ((i + step - stop) div step))]"
      using "1.IH"(1) True "1.prems" by simp
    have "py_range i stop step = i # py_range (i + step) stop step"
      using True "1.prems" by (subst py_range.simps) simp
    also have "\<dots> = map (\<lambda>j. i + int j * step) [0 ..< nat (- ((i - stop) div step))]"
      unfolding n ih upt_conv_Cons[OF zero_less_Suc] 
      by (simp add: map_Suc_upt[symmetric] algebra_simps del: upt_Suc)
    finally show ?thesis .
  next
    case False
    then have "0 \<le> (i - stop) div step"
      using "1.prems" by (simp add: pos_imp_zdiv_nonneg_iff)
    then show ?thesis using False "1.prems" by (subst py_range.simps) simp
  qed
qed

lemma py_slice_window:
  "0 \<le> s \<Longrightarrow> py_slice xs (int a) (int a + s) = take (nat s) (drop a xs)"
proof -
  assume s: "0 \<le> s"
  then have e: "nat (int a + s) = a + nat s" by arith
  show ?thesis
    using s by (cases "a < length xs") (auto simp: py_slice_def slice_bound_def Let_def min_def e)
qed

lemma ceiling_steps:
  "0 < step \<Longrightarrow> int (nat (- ((0 - int w) div step))) = \<lceil>real w / real_of_int step\<rceil>"
proof -
  assume "0 < step"
  have "\<lceil>real w / real_of_int step\<rceil> = \<lceil>real_of_int (int w) / real_of_int step\<rceil>" by simp
  also have "\<dots> = - (- int w div step)" by (rule ceiling_divide_eq_div)
  finally have c: "\<lceil>real w / real_of_int step\<rceil> = - (- int w div step)" .
  have "- int w div step \<le> 0"
    using \<open>0 < step\<close> by (simp add: div_nonpos_pos_le0)
  then show ?thesis using c by simp
qed

text \<open>
  Claim C1. For a chunk size \<open>S \<ge> 0\<close> and an overlap \<open>O < S\<close>, \<^verbatim>\<open>_create_chunks\<close> returns,
  for a text of \<open>W\<close> words, exactly \<open>\<lceil>W / (S - O)\<rceil>\<close> chunks, and the chunk of index \<open>i\<close>
  is the window of up to \<open>S\<close> consecutive words that starts at the word of index
  \<open>i * (S - O)\<close>, joined by single blanks.
\<close>

theorem create_chunks_windows:
  assumes "chunk_overlap p < chunk_size p" and "0 \<le> chunk_size p"
  shows "\<exists>chunks. create_chunks p text = Inr chunks \<and>
           int (length chunks) =
             \<lceil>real (length (split_ws text)) / real_of_int (chunk_size p - chunk_overlap p)\<rceil> \<and>
           (\<forall>i < length chunks.
              chunks ! i =
                join '' '' (window (split_ws text)
                              (i * nat (chunk_size p - chunk_overlap p)) (chunk_size p)))"
proof -
  define step where "step = chunk_size p - chunk_overlap p"
  define ws where "ws = split_ws text"
  define n where "n = nat (- ((0 - int (length ws)) div step))"
  have pos: "0 < step" using assms(1) by (simp add: step_def)
  have r: "py_range 0 (int (length ws)) step = map (\<lambda>j. 0 + int j * step) [0 ..< n]"
    unfolding n_def by (rule py_range_up [OF pos])
  define chunks where
    "chunks = map (\<lambda>i. join '' '' (py_slice ws i (i + chunk_size p)))
                  (py_range 0 (int (length ws)) step)"
  have c: "create_chunks p text = Inr chunks"
    using pos by (simp add: create_chunks_def Let_def chunks_def ws_def step_def)
  have len: "length chunks = n" by (simp add: chunks_def r)
  have cnt: "int (length chunks) = \<lceil>real (length ws) / real_of_int step\<rceil>"
    unfolding len n_def by (rule ceiling_steps [OF pos])
  have win: "chunks ! i = join '' '' (window ws (i * nat step) (chunk_size p))" if "i < length chunks" for i
  proof -
    have e: "int (i * nat step) = int i * step" using pos by simp
    have "py_slice ws (int i * step) (int i * step + chunk_size p) =
          take (nat (chunk_size p)) (drop (i * nat step) ws)"
      using py_slice_window [OF assms(2), of ws "i * nat step"] unfolding e .
    then show ?thesis using that len by (simp add: chunks_def r window_def)
  qed
  show ?thesis
  proof (intro exI conjI allI impI)
    show "create_chunks p text = Inr chunks" by (rule c)
    show "int (length chunks) =
        \<lceil>real (length (split_ws text)) / real_of_int (chunk_size p - chunk_overlap p)\<rceil>"
      using cnt by (simp only: step_def ws_def)
    show "chunks ! i = join '' '' (window (split_ws text)
            (i * nat (chunk_size p - chunk_overlap p)) (chunk_size p))"
      if "i < length chunks" for i
      using win [OF that] by (simp only: step_def ws_def)
  qed
qed

theorem create_chunks_windows_witness:
  "chunk_overlap \<lparr>chunk_size = 3, chunk_overlap = 1\<rparr> < chunk_size \<lparr>chunk_size = 3, chunk_overlap = 1\<rparr> \<and>
   0 \<le> chunk_size \<lparr>chunk_size = 3, chunk_overlap = 1\<rparr> \<and>
   create_chunks \<lparr>chunk_size = 3, chunk_overlap = 1\<rparr> ''a b c d e f g'' =
     Inr [''a b c'', ''c d e'', ''e f g'', ''g''] \<and>
   int (length [''a b c'', ''c d e'', ''e f g'', ''g'']) =
     \<lceil>real (length (split_ws ''a b c d e f g'')) / real_of_int (3 - 1)\<rceil> \<and>
   [''a b c'', ''c d e'', ''e f g'', ''g''] ! 3 =
     join '' '' (window (split_ws ''a b c d e f g'') (3 * nat (3 - 1)) 3)"
proof -
  let ?p = "\<lparr>chunk_size = 3, chunk_overlap = 1\<rparr>"
  have h1: "chunk_overlap ?p < chunk_size ?p" by simp
  have h2: "0 \<le> chunk_size ?p" by simp
  have e: "create_chunks ?p ''a b c d e f g'' = Inr [''a b c'', ''c d e'', ''e f g'', ''g'']"
    by code_simp
  obtain chunks where c: "create_chunks ?p ''a b c d e f g'' = Inr chunks"
    and l: "int (length chunks) =
        \<lceil>real (length (split_ws ''a b c d e f g'')) / real_of_int (chunk_size ?p - chunk_overlap ?p)\<rceil>"
    and w: "\<forall>i < length chunks. chunks ! i =
        join '' '' (window (split_ws ''a b c d e f g'')
                      (i * nat (chunk_size ?p - chunk_overlap ?p)) (chunk_size ?p))"
    using create_chunks_windows [OF h1 h2, of "''a b c d e f g''"] by blast
  have eq: "chunks = [''a b c'', ''c d e'', ''e f g'', ''g'']" using c e by simp
  have l': "int (length [''a b c'', ''c d e'', ''e f g'', ''g'']) =
     \<lceil>real (length (split_ws ''a b c d e f g'')) / real_of_int (3 - 1)\<rceil>"
    using l unfolding eq by simp
  have "(3::nat) < length chunks" unfolding eq by simp
  from w [rule_format, OF this]
  have w': "[''a b c'', ''c d e'', ''e f g'', ''g''] ! 3 =
     join '' '' (window (split_ws ''a b c d e f g'') (3 * nat (3 - 1)) 3)"
    unfolding eq by simp
  show ?thesis using h1 h2 e l' w' by (intro conjI)
qed

section \<open>Properties of quiz evaluation, quiz generation and the engine state\<close>

text \<open>
  Claim C10. On a quiz without questions \<^verbatim>\<open>evaluate_quiz\<close> does not divide: it returns
  the score 0, the total 0, the percentage 0, no results and the grade F.
\<close>

theorem evaluate_quiz_empty:
  "evaluate_quiz (q\<lparr>questions := []\<rparr>) user_answers =
     Inr \<lparr>score = 0, total_questions = 0, percentage = 0, grade = ''F'', results = []\<rparr>"
  by (simp add: evaluate_quiz_def calculate_grade_def)

text \<open>
  Claim C4. When the search for the ten best chunks of the topic finds no document,
  \<^verbatim>\<open>generate_quiz\<close> returns the no-content error and no quiz.
\<close>

theorem generate_quiz_no_content:
  assumes "search store t 10 = Inr found" and "documents found = []"
  shows "generate_quiz store r t num qtype = Inr (NoContent ''No content found for this topic'')"
  using assms by (simp add: generate_quiz_def)

theorem generate_quiz_no_content_witness:
  "search \<lparr>search = (\<lambda>q n. Inr \<lparr>documents = [], metadatas = ([] :: unit list)\<rparr>)\<rparr> ''algebra'' 10 =
     Inr \<lparr>documents = [], metadatas = ([] :: unit list)\<rparr> \<and>
   documents \<lparr>documents = [], metadatas = ([] :: unit list)\<rparr> = [] \<and>
   generate_quiz \<lparr>search = (\<lambda>q n. Inr \<lparr>documents = [], metadatas = ([] :: unit list)\<rparr>)\<rparr>
     \<lparr>choice_term = (\<lambda>i xs. hd xs), choice_starter = (\<lambda>i xs. hd xs),
      shuffle_options = (\<lambda>i xs. xs), shuffle_questions = (\<lambda>qs. qs)\<rparr>
     ''algebra'' 5 ''mixed'' = Inr (NoContent ''No content found for this topic'')"
proof -
  let ?found = "\<lparr>documents = [], metadatas = ([] :: unit list)\<rparr>"
  let ?store = "\<lparr>search = (\<lambda>q n. Inr ?found)\<rparr>"
  have h1: "search ?store ''algebra'' 10 = Inr ?found" by simp
  have h2: "documents ?found = []" by simp
  show ?thesis using h1 h2 generate_quiz_no_content [OF h1 h2] by (intro conjI)
qed

text \<open>
  Claim C7. A call of \<^verbatim>\<open>query\<close> leaves the engine as it was except that the question is
  appended once to the history, whatever the later stages do; in particular a search
  that raises still leaves the question in the history.
\<close>

theorem query_appends_question:
  "snd (query sent_tokenize self question_str n_results difficulty_level) =
     self\<lparr>query_history := query_history self @ [question_str]\<rparr> \<and>
   (search (vector_store self) question_str n_results = Inl e \<longrightarrow>
      fst (query sent_tokenize self question_str n_results difficulty_level) = Inl e)"
  by (simp add: query_def Let_def split: sum.splits option.splits)

theorem query_appends_question_witness:
  "search (vector_store \<lparr>vector_store = \<lparr>search = (\<lambda>q n. Inl SearchError)\<rparr>,
             assessor = new_difficulty_assessor, query_history = [''what is heat'']\<rparr>)
     ''define work'' 3 = (Inl SearchError :: py_error + unit search_results) \<and>
   query_history (snd (query (\<lambda>t. [t])
     \<lparr>vector_store = \<lparr>search = (\<lambda>q n. (Inl SearchError :: py_error + unit search_results))\<rparr>,
      assessor = new_difficulty_assessor, query_history = [''what is heat'']\<rparr>
     ''define work'' 3 None)) = [''what is heat'', ''define work''] \<and>
   fst (query (\<lambda>t. [t])
     \<lparr>vector_store = \<lparr>search = (\<lambda>q n. (Inl SearchError :: py_error + unit search_results))\<rparr>,
      assessor = new_difficulty_assessor, query_history = [''what is heat'']\<rparr>
     ''define work'' 3 None) = Inl SearchError"
proof -
  let ?e = "\<lparr>vector_store = \<lparr>search = (\<lambda>q n. (Inl SearchError :: py_error + unit search_results))\<rparr>,
      assessor = new_difficulty_assessor, query_history = [''what is heat'']\<rparr>"
  have h: "search (vector_store ?e) ''define work'' 3 = Inl SearchError" by simp
  note t = query_appends_question [of "\<lambda>t. [t]" ?e "''define work''" 3 None SearchError]
  from t have s: "snd (query (\<lambda>t. [t]) ?e ''define work'' 3 None) =
      ?e\<lparr>query_history := query_history ?e @ [''define work'']\<rparr>" by (rule conjunct1)
  from t h have f: "fst (query (\<lambda>t. [t]) ?e ''define work'' 3 None) = Inl SearchError"
    by blast
  have "query_history (snd (query (\<lambda>t. [t]) ?e ''define work'' 3 None)) =
      [''what is heat'', ''define work'']"
    unfolding s by simp
  then show ?thesis using h f by (intro conjI)
qed

section \<open>Properties of the short-answer rule and of the difficulty scorer\<close>

lemma length_filter_remdups:
  "length (filter P (remdups xs)) = card {x \<in> set xs. P x}"
proof -
  have "distinct (filter P (remdups xs))" by simp
  then have "length (filter P (remdups xs)) = card (set (filter P (remdups xs)))"
    by (simp only: distinct_card)
  also have "set (filter P (remdups xs)) = {x \<in> set xs. P x}" by auto
  finally show ?thesis .
qed

text \<open>
  Claim C5. The key words of a short-answer question are the words of the reference
  answer that are longer than three characters. An answer is marked correct exactly when
  the number of key words among its words is at least 30 percent of the number of key
  words; without any key word every answer is marked correct.
\<close>

theorem evaluate_short_answer_overlap:
  "(evaluate_short_answer user_answer sample_answer \<longleftrightarrow>
      real (card (set (split_ws (lower user_answer)) \<inter>
                  {w \<in> set (split_ws (lower sample_answer)). length w > 3}))
        \<ge> 0.3 * real (card {w \<in> set (split_ws (lower sample_answer)). length w > 3})) \<and>
   ({w \<in> set (split_ws (lower sample_answer)). length w > 3} = {} \<longrightarrow>
      evaluate_short_answer user_answer sample_answer)"
proof -
  define U where "U = set (split_ws (lower user_answer))"
  define K where "K = {w \<in> set (split_ws (lower sample_answer)). length w > 3}"
  have k: "length (filter (\<lambda>word. length word > 3) (remdups (split_ws (lower sample_answer))))
      = card K"
    unfolding K_def by (rule length_filter_remdups)
  have ks: "set (remdups (filter (\<lambda>word. length word > 3)
                (remdups (split_ws (lower sample_answer))))) = K"
    unfolding K_def by auto
  have m: "length (filter (\<lambda>word. word \<in> K) (remdups (split_ws (lower user_answer))))
      = card (U \<inter> K)"
    unfolding length_filter_remdups U_def by (rule arg_cong [where f = card]) auto
  have iff: "evaluate_short_answer user_answer sample_answer \<longleftrightarrow>
      real (card (U \<inter> K)) \<ge> 0.3 * real (card K)"
    unfolding evaluate_short_answer_def Let_def ks k m by (simp add: mult.commute)
  have emp: "evaluate_short_answer user_answer sample_answer" if "K = {}"
    using iff that by simp
  show ?thesis using iff emp unfolding U_def K_def by blast
qed

theorem evaluate_short_answer_overlap_witness:
  "{w \<in> set (split_ws (lower ''a b c'')). length w > 3} = {} \<and>
   evaluate_short_answer [] ''a b c''"
proof -
  have w: "split_ws (lower ''a b c'') = [''a'', ''b'', ''c'']" by code_simp
  have k: "{w \<in> set (split_ws (lower ''a b c'')). length w > 3} = {}"
    unfolding w by auto
  from evaluate_short_answer_overlap [of "[]" "''a b c''"] k
  have "evaluate_short_answer [] ''a b c''" by blast
  with k show ?thesis by (intro conjI)
qed

lemma vowel_groups_mono: "syl \<le> vowel_groups s syl prev"
proof (induction s arbitrary: syl prev)
  case Nil
  show ?case by simp
next
  case (Cons c cs)
  have "syl \<le> vowel_groups cs syl b" and "syl + 1 \<le> vowel_groups cs (syl + 1) b" for b
    using Cons.IH by simp_all
  then have "syl \<le> vowel_groups cs (syl + 1) b" for b
    by (meson add_le_same_cancel1 order_trans zero_le_one le_add_same_cancel1)
  then show ?case using Cons.IH by simp
qed

lemma vowel_groups_vowel:
  "\<not> prev \<Longrightarrow> \<exists>c \<in> set s. c \<in> set vowels \<Longrightarrow> syl + 1 \<le> vowel_groups s syl prev"
proof (induction s arbitrary: syl)
  case Nil
  then show ?case by simp
next
  case (Cons c cs)
  show ?case
  proof (cases "c \<in> set vowels")
    case True
    then show ?thesis using Cons.prems(1) vowel_groups_mono [of "syl + 1" cs True] by simp
  next
    case False
    then have "\<exists>d \<in> set cs. d \<in> set vowels" using Cons.prems(2) by auto
    then show ?thesis using False Cons.IH [OF Cons.prems(1)] Cons.prems(1) by simp
  qed
qed

lemma endswith_e: "endswith word ''e'' \<Longrightarrow> CHR ''e'' \<in> set (lower word)"
proof -
  assume "endswith word ''e''"
  then have "take 1 (rev word) = ''e''" by (simp add: endswith_def startswith_def)
  then have "CHR ''e'' \<in> set (rev word)" by (cases "rev word") auto
  then have "CHR ''e'' \<in> set word" by simp
  then have "lower_char CHR ''e'' \<in> set (lower word)" unfolding lower_def by simp
  moreover have "lower_char CHR ''e'' = CHR ''e''"
    by (simp add: lower_char_def upper_letters_def lower_letters_def)
  ultimately show ?thesis by simp
qed

lemma count_syllables_pos: "1 \<le> count_syllables word"
proof (cases "endswith word ''e''")
  case True
  have "CHR ''e'' \<in> set vowels" by (simp add: vowels_def)
  then have "\<exists>c \<in> set (lower word). c \<in> set vowels" using endswith_e [OF True] by blast
  then have "0 + 1 \<le> vowel_groups (lower word) 0 False" by (intro vowel_groups_vowel) simp_all
  then show ?thesis using True by (simp add: count_syllables_def Let_def)
next
  case False
  have "0 \<le> vowel_groups (lower word) 0 False" by (rule vowel_groups_mono)
  then show ?thesis using False by (simp add: count_syllables_def Let_def)
qed

lemma sum_count_syllables_nonneg: "0 \<le> sum_list (map count_syllables ws)"
proof (induction ws)
  case Nil
  show ?case by simp
next
  case (Cons w ws)
  then show ?case using count_syllables_pos [of w] by simp
qed

lemma metrics_nonneg:
  "0 \<le> avg_sentence_length (calculate_metrics tok self text)"
  "0 \<le> complex_word_ratio (calculate_metrics tok self text)"
  "0 \<le> syllable_density (calculate_metrics tok self text)"
  "0 \<le> technical_term_ratio (calculate_metrics tok self text)"
  using sum_count_syllables_nonneg [of "findall_words (lower text)"]
  by (simp_all add: calculate_metrics_def Let_def)

text \<open>
  Claim C2. The difficulty of a text is the weighted sum of the four metrics, with the
  weights 0.2, 0.3, 0.3 and 0.2, divided by 100 and cut off at 1. The four metrics are
  never negative, so the result lies between 0 and 1.
\<close>

theorem assess_text_difficulty_range:
  "assess_text_difficulty tok self text =
     min 1 ((0.2 * avg_sentence_length (calculate_metrics tok self text) +
             0.3 * complex_word_ratio (calculate_metrics tok self text) +
             0.3 * syllable_density (calculate_metrics tok self text) +
             0.2 * technical_term_ratio (calculate_metrics tok self text)) / 100) \<and>
   0 \<le> avg_sentence_length (calculate_metrics tok self text) \<and>
   0 \<le> complex_word_ratio (calculate_metrics tok self text) \<and>
   0 \<le> syllable_density (calculate_metrics tok self text) \<and>
   0 \<le> technical_term_ratio (calculate_metrics tok self text) \<and>
   0 \<le> assess_text_difficulty tok self text \<and>
   assess_text_difficulty tok self text \<le> 1"
proof -
  let ?m = "calculate_metrics tok self text"
  have f: "assess_text_difficulty tok self text =
     min 1 ((0.2 * avg_sentence_length ?m + 0.3 * complex_word_ratio ?m +
             0.3 * syllable_density ?m + 0.2 * technical_term_ratio ?m) / 100)"
    by (simp add: assess_text_difficulty_def Let_def mult.commute)
  have nn: "0 \<le> 0.2 * avg_sentence_length ?m + 0.3 * complex_word_ratio ?m +
             0.3 * syllable_density ?m + 0.2 * technical_term_ratio ?m"
    using metrics_nonneg [of tok self "text"] by simp
  have lo: "0 \<le> assess_text_difficulty tok self text" unfolding f using nn by simp
  have hi: "assess_text_difficulty tok self text \<le> 1" unfolding f by simp
  show ?thesis using f lo hi metrics_nonneg [of tok self "text"] by (intro conjI)
qed

section \<open>Properties of true/false generation\<close>

lemma true_false_loop_map:
  "true_false_loop sentences idx = map (\<lambda>i. true_false_item i (sentences ! i)) idx"
  by (induction idx) simp_all

lemma modify_loop_none:
  "\<forall>p \<in> set ms. \<not> contains (fst p) (lower sentence) \<Longrightarrow> modify_loop ms sentence = sentence"
  by (induction ms sentence rule: modify_loop.induct) simp_all

lemma modify_loop_first:
  "k < length ms \<Longrightarrow> contains (fst (ms ! k)) (lower sentence) \<Longrightarrow>
   \<forall>j < k. \<not> contains (fst (ms ! j)) (lower sentence) \<Longrightarrow>
   modify_loop ms sentence = replace_first (fst (ms ! k)) (snd (ms ! k)) (lower sentence)"
proof (induction ms sentence arbitrary: k rule: modify_loop.induct)
  case (1 sentence)
  then show ?case by simp
next
  case (2 original replacement rest sentence)
  show ?case
  proof (cases k)
    case 0
    then show ?thesis using "2.prems"(2) by simp
  next
    case (Suc k')
    have no: "\<not> contains original (lower sentence)"
      using "2.prems"(3) Suc by fastforce
    have "\<forall>j < k'. \<not> contains (fst (rest ! j)) (lower sentence)"
      using "2.prems"(3) Suc by fastforce
    then have "modify_loop rest sentence =
        replace_first (fst (rest ! k')) (snd (rest ! k')) (lower sentence)"
      using "2.IH" [OF no, of k'] "2.prems"(1,2) Suc by simp
    then show ?thesis using no Suc by simp
  qed
qed

text \<open>
  Claim C3, the claim as stated fails: for the second candidate sentence of this content
  the generated statement is the lower-cased sentence with the replacement made, not the
  sentence itself with the replacement made.
\<close>

theorem true_false_statement_counterexample:
  "candidate_sentences
     ''Water boils at one hundred degrees. Mars is the fourth planet from the Sun.'' =
     [''Water boils at one hundred degrees'', ''Mars is the fourth planet from the Sun''] \<and>
   generate_true_false
     ''Water boils at one hundred degrees. Mars is the fourth planet from the Sun.'' 2 =
     [TrueFalse ''True or False: Water boils at one hundred degrees'' ''True'',
      TrueFalse ''True or False: mars is not the fourth planet from the sun'' ''False''] \<and>
   negation_as_specified ''Mars is the fourth planet from the Sun'' =
     ''Mars is not the fourth planet from the Sun'' \<and>
   ''mars is not the fourth planet from the sun'' \<noteq>
     negation_as_specified ''Mars is the fourth planet from the Sun''"
  by code_simp

text \<open>
  Claim C3 as amended. For every list of candidate sentences the question of index \<open>i\<close>
  is labelled True exactly when \<open>i\<close> is even, and an even item states its sentence
  unchanged. An odd item states the result of \<^verbatim>\<open>_modify_sentence_for_false\<close>: the pairs
  are tried in their order against the lower-cased sentence; for the first pair whose
  phrase occurs there, the result is the lower-cased sentence with the leftmost occurrence
  of the phrase replaced; when no phrase occurs, the result is the sentence itself.
\<close>

theorem true_false_questions:
  "generate_true_false content num =
     true_false_loop (candidate_sentences content)
       (question_indices num (candidate_sentences content)) \<and>
   length (true_false_loop sentences (question_indices num sentences)) =
     nat (min num (int (length sentences))) \<and>
   (\<forall>i < length (true_false_loop sentences (question_indices num sentences)).
      true_false_loop sentences (question_indices num sentences) ! i =
        TrueFalse
          (''True or False: '' @
             (if even i then sentences ! i else modify_sentence_for_false (sentences ! i)))
          (if even i then ''True'' else ''False'')) \<and>
   ((\<forall>p \<in> set modifications. \<not> contains (fst p) (lower sentence)) \<longrightarrow>
      modify_sentence_for_false sentence = sentence) \<and>
   (\<forall>k < length modifications.
      contains (fst (modifications ! k)) (lower sentence) \<and>
      (\<forall>j < k. \<not> contains (fst (modifications ! j)) (lower sentence)) \<longrightarrow>
      modify_sentence_for_false sentence =
        replace_first (fst (modifications ! k)) (snd (modifications ! k)) (lower sentence))"
proof (intro conjI allI impI)
  show "generate_true_false content num =
     true_false_loop (candidate_sentences content)
       (question_indices num (candidate_sentences content))"
    by (simp add: generate_true_false_def Let_def)
  show len: "length (true_false_loop sentences (question_indices num sentences)) =
     nat (min num (int (length sentences)))"
    by (simp add: true_false_loop_map question_indices_def)
  show "true_false_loop sentences (question_indices num sentences) ! i =
        TrueFalse
          (''True or False: '' @
             (if even i then sentences ! i else modify_sentence_for_false (sentences ! i)))
          (if even i then ''True'' else ''False'')"
    if "i < length (true_false_loop sentences (question_indices num sentences))" for i
  proof -
    have "i < nat (min num (int (length sentences)))" using that len by simp
    then have "true_false_loop sentences (question_indices num sentences) ! i =
        true_false_item i (sentences ! i)"
      by (simp add: true_false_loop_map question_indices_def)
    then show ?thesis by (simp add: true_false_item_def Let_def even_iff_mod_2_eq_zero)
  qed
  show "modify_sentence_for_false sentence = sentence"
    if "\<forall>p \<in> set modifications. \<not> contains (fst p) (lower sentence)"
    unfolding modify_sentence_for_false_def by (rule modify_loop_none [OF that])
  show "modify_sentence_for_false sentence =
        replace_first (fst (modifications ! k)) (snd (modifications ! k)) (lower sentence)"
    if "k < length modifications"
      and "contains (fst (modifications ! k)) (lower sentence) \<and>
           (\<forall>j < k. \<not> contains (fst (modifications ! j)) (lower sentence))" for k
    unfolding modify_sentence_for_false_def
    using that by (intro modify_loop_first) blast+
qed

theorem true_false_questions_witness:
  "(1::nat) < length (true_false_loop
       [''Water boils at one hundred degrees'', ''Mars is the fourth planet from the Sun'']
       (question_indices 2
          [''Water boils at one hundred degrees'', ''Mars is the fourth planet from the Sun''])) \<and>
   true_false_loop
       [''Water boils at one hundred degrees'', ''Mars is the fourth planet from the Sun'']
       (question_indices 2
          [''Water boils at one hundred degrees'', ''Mars is the fourth planet from the Sun''])
     ! 1 =
     TrueFalse
       (''True or False: '' @
          modify_sentence_for_false ''Mars is the fourth planet from the Sun'')
       ''False'' \<and>
   (0::nat) < length modifications \<and>
   contains (fst (modifications ! 0)) (lower ''Mars is the fourth planet from the Sun'') \<and>
   modify_sentence_for_false ''Mars is the fourth planet from the Sun'' =
     replace_first (fst (modifications ! 0)) (snd (modifications ! 0))
       (lower ''Mars is the fourth planet from the Sun'')"
proof -
  let ?S = "[''Water boils at one hundred degrees'', ''Mars is the fourth planet from the Sun'']"
  let ?s = "''Mars is the fourth planet from the Sun''"
  note t = true_false_questions [of "[]" 2 ?S ?s]
  have h1: "(1::nat) < length (true_false_loop ?S (question_indices 2 ?S))" by code_simp
  have h2: "(0::nat) < length modifications" by code_simp
  have h3: "contains (fst (modifications ! 0)) (lower ?s)" by code_simp
  from t have items: "\<forall>i < length (true_false_loop ?S (question_indices 2 ?S)).
      true_false_loop ?S (question_indices 2 ?S) ! i =
        TrueFalse
          (''True or False: '' @
             (if even i then ?S ! i else modify_sentence_for_false (?S ! i)))
          (if even i then ''True'' else ''False'')"
    by (elim conjE)
  from items h1 have q: "true_false_loop ?S (question_indices 2 ?S) ! 1 =
      TrueFalse (''True or False: '' @ modify_sentence_for_false ?s) ''False''"
    by fastforce
  from t have firsts: "\<forall>k < length modifications.
      contains (fst (modifications ! k)) (lower ?s) \<and>
      (\<forall>j < k. \<not> contains (fst (modifications ! j)) (lower ?s)) \<longrightarrow>
      modify_sentence_for_false ?s =
        replace_first (fst (modifications ! k)) (snd (modifications ! k)) (lower ?s)"
    by (elim conjE)
  from firsts h2 h3 have m: "modify_sentence_for_false ?s =
      replace_first (fst (modifications ! 0)) (snd (modifications ! 0)) (lower ?s)"
    by fastforce
  show ?thesis using h1 q h2 h3 m by (intro conjI)
qed

section \<open>Properties of the simple explanation\<close>

lemma simple_loop_filter:
  "simple_loop xs = map strip (filter (\<lambda>s. length (split_ws s) < 20) xs)"
  by (induction xs) simp_all

text \<open>
  Claim C8, the claim as stated fails: in this context the first sentence has 20 words
  and three short sentences follow. The first three sentences with fewer than 20 words
  are B, C and D, but the explanation returned holds B and C only, and the text the
  specification describes does not occur in it.
\<close>

theorem explain_simple_counterexample:
  "create_simplified_explanation ''q'' ''a b c d e f g h i j k l m n o p q r s t. B. C. D'' =
     ''Here'' @ [apostrophe] @ ''s a simple explanation:'' @ [newline, newline] @ ''B. C.'' \<and>
   explanation_as_specified ''a b c d e f g h i j k l m n o p q r s t. B. C. D'' = ''B. C. D'' \<and>
   \<not> contains (explanation_as_specified ''a b c d e f g h i j k l m n o p q r s t. B. C. D'')
        (create_simplified_explanation ''q''
           ''a b c d e f g h i j k l m n o p q r s t. B. C. D'')"
  by code_simp

text \<open>
  Claim C8 as amended. \<^verbatim>\<open>explain_like_im_five\<close> searches the two best chunks. When none
  is found the response is the fixed not-found message. Otherwise the context is the
  chunks joined by blanks; of its first three sentences (the pieces between full stops)
  those with fewer than 20 words are kept and stripped, and the response is the fixed
  preface, the kept sentences joined with a full stop and a blank, and a final full stop.
  When none of the first three sentences is kept, the response is the second fixed
  preface, the first 200 characters of the context and three dots.
\<close>

theorem explain_simple:
  "(search (vector_store self) question_str 2 = Inr found \<and> documents found = [] \<longrightarrow>
      explain_like_im_five self question_str =
        Inr (NotFound (''I couldn'' @ [apostrophe] @
               ''t find information about that topic. Try uploading more study materials!''))) \<and>
   (search (vector_store self) question_str 2 = Inr found \<and> documents found \<noteq> [] \<longrightarrow>
      explain_like_im_five self question_str =
        Inr (Explained question_str
               (create_simplified_explanation question_str (join '' '' (documents found)))
               found ''beginner'')) \<and>
   create_simplified_explanation question_str context =
     (if filter (\<lambda>s. length (split_ws s) < 20) (take 3 (split_on CHR ''.'' context)) \<noteq> []
      then ''Here'' @ [apostrophe] @ ''s a simple explanation:'' @ [newline, newline] @
           join ''. ''
             (map strip
                (filter (\<lambda>s. length (split_ws s) < 20) (take 3 (split_on CHR ''.'' context))))
           @ ''.''
      else ''Let me explain this in simple terms:'' @ [newline, newline] @
           take 200 context @ ''...'')"
proof (intro conjI impI)
  show "explain_like_im_five self question_str =
        Inr (NotFound (''I couldn'' @ [apostrophe] @
               ''t find information about that topic. Try uploading more study materials!''))"
    if "search (vector_store self) question_str 2 = Inr found \<and> documents found = []"
    using that by (simp add: explain_like_im_five_def)
  show "explain_like_im_five self question_str =
        Inr (Explained question_str
               (create_simplified_explanation question_str (join '' '' (documents found)))
               found ''beginner'')"
    if "search (vector_store self) question_str 2 = Inr found \<and> documents found \<noteq> []"
    using that by (simp add: explain_like_im_five_def Let_def)
  have s3: "py_slice (split_on CHR ''.'' context) 0 3 = take 3 (split_on CHR ''.'' context)"
    using py_slice_prefix [of "split_on CHR ''.'' context" 3] by simp
  have s200: "py_slice context 0 200 = take 200 context"
    using py_slice_prefix [of "context" 200] by simp
  show "create_simplified_explanation question_str context =
     (if filter (\<lambda>s. length (split_ws s) < 20) (take 3 (split_on CHR ''.'' context)) \<noteq> []
      then ''Here'' @ [apostrophe] @ ''s a simple explanation:'' @ [newline, newline] @
           join ''. ''
             (map strip
                (filter (\<lambda>s. length (split_ws s) < 20) (take 3 (split_on CHR ''.'' context))))
           @ ''.''
      else ''Let me explain this in simple terms:'' @ [newline, newline] @
           take 200 context @ ''...'')"
    unfolding create_simplified_explanation_def Let_def s3 s200 simple_loop_filter
    by simp
qed

theorem explain_simple_witness:
  "search (vector_store
       \<lparr>vector_store = \<lparr>search = (\<lambda>q n. Inr \<lparr>documents = [''Heat flows. It warms''],
                                               metadatas = [()]\<rparr>)\<rparr>,
        assessor = new_difficulty_assessor, query_history = []\<rparr>) ''heat'' 2 =
     Inr \<lparr>documents = [''Heat flows. It warms''], metadatas = [()]\<rparr> \<and>
   documents \<lparr>documents = [''Heat flows. It warms''], metadatas = [()]\<rparr> \<noteq> [] \<and>
   explain_like_im_five
       \<lparr>vector_store = \<lparr>search = (\<lambda>q n. Inr \<lparr>documents = [''Heat flows. It warms''],
                                               metadatas = [()]\<rparr>)\<rparr>,
        assessor = new_difficulty_assessor, query_history = []\<rparr> ''heat'' =
     Inr (Explained ''heat''
            (create_simplified_explanation ''heat'' (join '' '' [''Heat flows. It warms'']))
            \<lparr>documents = [''Heat flows. It warms''], metadatas = [()]\<rparr> ''beginner'') \<and>
   search (vector_store
       \<lparr>vector_store = \<lparr>search = (\<lambda>q n. Inr \<lparr>documents = [], metadatas = ([] :: unit list)\<rparr>)\<rparr>,
        assessor = new_difficulty_assessor, query_history = []\<rparr>) ''heat'' 2 =
     Inr \<lparr>documents = [], metadatas = ([] :: unit list)\<rparr> \<and>
   explain_like_im_five
       \<lparr>vector_store = \<lparr>search = (\<lambda>q n. Inr \<lparr>documents = [], metadatas = ([] :: unit list)\<rparr>)\<rparr>,
        assessor = new_difficulty_assessor, query_history = []\<rparr> ''heat'' =
     Inr (NotFound (''I couldn'' @ [apostrophe] @
            ''t find information about that topic. Try uploading more study materials!''))"
proof -
  let ?f = "\<lparr>documents = [''Heat flows. It warms''], metadatas = [()]\<rparr>"
  let ?e = "\<lparr>vector_store = \<lparr>search = (\<lambda>q n. Inr ?f)\<rparr>,
        assessor = new_difficulty_assessor, query_history = []\<rparr>"
  let ?g = "\<lparr>documents = [], metadatas = ([] :: unit list)\<rparr>"
  let ?d = "\<lparr>vector_store = \<lparr>search = (\<lambda>q n. Inr ?g)\<rparr>,
        assessor = new_difficulty_assessor, query_history = []\<rparr>"
  have h1: "search (vector_store ?e) ''heat'' 2 = Inr ?f" by simp
  have h2: "documents ?f \<noteq> []" by simp
  have h3: "search (vector_store ?d) ''heat'' 2 = Inr ?g" by simp
  have h4: "documents ?g = []" by simp
  from explain_simple [of ?e "''heat''" ?f "[]"] h1 h2
  have a: "explain_like_im_five ?e ''heat'' =
      Inr (Explained ''heat''
            (create_simplified_explanation ''heat'' (join '' '' (documents ?f))) ?f ''beginner'')"
    by blast
  from explain_simple [of ?d "''heat''" ?g "[]"] h3 h4
  have b: "explain_like_im_five ?d ''heat'' =
      Inr (NotFound (''I couldn'' @ [apostrophe] @
            ''t find information about that topic. Try uploading more study materials!''))"
    by blast
  have a': "explain_like_im_five ?e ''heat'' =
      Inr (Explained ''heat''
            (create_simplified_explanation ''heat'' (join '' '' [''Heat flows. It warms'']))
            ?f ''beginner'')"
    using a by simp
  show ?thesis using h1 h2 a' h3 b by (intro conjI)
qed

section \<open>Properties of the knowledge-gap analysis\<close>

lemma map_of_bump:
  "map_of (bump w tc) = (map_of tc)(w \<mapsto> (case map_of tc w of None \<Rightarrow> 1 | Some n \<Rightarrow> n + 1))"
  by (induction w tc rule: bump.induct) (auto simp: fun_eq_iff)

lemma keys_bump: "fst ` set (bump w tc) = insert w (fst ` set tc)"
  by (induction w tc rule: bump.induct) auto

lemma distinct_bump: "distinct (map fst tc) \<Longrightarrow> distinct (map fst (bump w tc))"
proof (induction w tc rule: bump.induct)
  case (1 word)
  show ?case by simp
next
  case (2 word k n rest)
  then show ?case using keys_bump [of word rest] by auto
qed

lemma count_of_bump:
  "case_option 0 id (map_of (bump w tc) v) =
     case_option 0 id (map_of tc v) + (if v = w then 1 else (0::nat))"
  by (simp add: map_of_bump split: option.splits)

lemma count_words_props:
  "distinct (map fst tc) \<Longrightarrow>
   distinct (map fst (count_words ws tc)) \<and>
   set (map fst (count_words ws tc)) = set (map fst tc) \<union> set (filter (\<lambda>w. length w > 3) ws) \<and>
   (\<forall>v. case_option 0 id (map_of (count_words ws tc) v) =
          case_option 0 id (map_of tc v) + count_list (filter (\<lambda>w. length w > 3) ws) v)"
proof (induction ws arbitrary: tc)
  case Nil
  then show ?case by simp
next
  case (Cons w ws)
  show ?case
  proof (cases "length w > 3")
    case True
    have d: "distinct (map fst (bump w tc))" using Cons.prems by (rule distinct_bump)
    from Cons.IH [OF d] show ?thesis
      using True by (auto simp: keys_bump count_of_bump)
  next
    case False
    from Cons.IH [OF Cons.prems] show ?thesis using False by simp
  qed
qed

lemma history_words_Cons:
  "history_words (q # rest) =
     filter (\<lambda>w. length w > 3) (findall_words (lower q)) @ history_words rest"
  by (simp add: history_words_def)

lemma count_queries_props:
  "distinct (map fst tc) \<Longrightarrow>
   distinct (map fst (count_queries qs tc)) \<and>
   set (map fst (count_queries qs tc)) = set (map fst tc) \<union> set (history_words qs) \<and>
   (\<forall>v. case_option 0 id (map_of (count_queries qs tc) v) =
          case_option 0 id (map_of tc v) + count_list (history_words qs) v)"
proof (induction qs arbitrary: tc)
  case Nil
  then show ?case by (simp add: history_words_def)
next
  case (Cons q qs)
  let ?tc = "count_words (findall_words (lower q)) tc"
  from count_words_props [OF Cons.prems, of "findall_words (lower q)"]
  have d: "distinct (map fst ?tc)"
    and k: "set (map fst ?tc) =
        set (map fst tc) \<union> set (filter (\<lambda>w. length w > 3) (findall_words (lower q)))"
    and c: "\<And>v. case_option 0 id (map_of ?tc v) =
        case_option 0 id (map_of tc v) +
        count_list (filter (\<lambda>w. length w > 3) (findall_words (lower q))) v"
    by blast+
  from Cons.IH [OF d]
  have d': "distinct (map fst (count_queries qs ?tc))"
    and k': "set (map fst (count_queries qs ?tc)) = set (map fst ?tc) \<union> set (history_words qs)"
    and c': "\<And>v. case_option 0 id (map_of (count_queries qs ?tc) v) =
        case_option 0 id (map_of ?tc v) + count_list (history_words qs) v"
    by blast+
  show ?case
  proof (intro conjI allI)
    show "distinct (map fst (count_queries (q # qs) tc))" using d' by simp
    show "set (map fst (count_queries (q # qs) tc)) =
        set (map fst tc) \<union> set (history_words (q # qs))"
      using k' k by (auto simp: history_words_Cons)
    show "case_option 0 id (map_of (count_queries (q # qs) tc) v) =
        case_option 0 id (map_of tc v) + count_list (history_words (q # qs)) v" for v
      using c' [of v] c [of v] by (simp add: history_words_Cons)
  qed
qed

lemma extract_common_topics_counts:
  "distinct (map fst (extract_common_topics qs))"
  "map_of (extract_common_topics qs) w =
     (if w \<in> set (history_words qs) then Some (count_list (history_words qs) w) else None)"
proof -
  from count_queries_props [of "[]" qs]
  have d: "distinct (map fst (extract_common_topics qs))"
    and k: "set (map fst (extract_common_topics qs)) = set (history_words qs)"
    and c: "\<And>v. case_option 0 id (map_of (extract_common_topics qs) v) =
        count_list (history_words qs) v"
    unfolding extract_common_topics_def by simp_all
  show "distinct (map fst (extract_common_topics qs))" by (rule d)
  show "map_of (extract_common_topics qs) w =
     (if w \<in> set (history_words qs) then Some (count_list (history_words qs) w) else None)"
  proof (cases "w \<in> set (history_words qs)")
    case True
    then have "w \<in> fst ` set (extract_common_topics qs)" using k by simp
    then obtain n where n: "map_of (extract_common_topics qs) w = Some n"
      by (metis domD dom_map_of_conv_image_fst)
    then have "n = count_list (history_words qs) w" using c [of w] by simp
    then show ?thesis using True n by simp
  next
    case False
    then have "w \<notin> fst ` set (extract_common_topics qs)" using k by simp
    then have "map_of (extract_common_topics qs) w = None"
      by (simp add: map_of_eq_None_iff)
    then show ?thesis using False by simp
  qed
qed

lemma sorted_topics_descending:
  "i \<le> j \<Longrightarrow> j < length (sorted_topics ts) \<Longrightarrow>
   snd (sorted_topics ts ! j) \<le> snd (sorted_topics ts ! i)"
proof -
  assume ij: "i \<le> j" and j: "j < length (sorted_topics ts)"
  have "sorted (map (\<lambda>x. - int (snd x)) (sorted_topics ts))"
    unfolding sorted_topics_def by (rule sorted_sort_key)
  then have "map (\<lambda>x. - int (snd x)) (sorted_topics ts) ! i \<le>
      map (\<lambda>x. - int (snd x)) (sorted_topics ts) ! j"
    using ij j by (simp add: sorted_iff_nth_mono del: nth_map)
  then show ?thesis using ij j by simp
qed

lemma weak_loop_filter:
  "weak_loop xs = map (\<lambda>(t, n). weak_area_message t n) (filter (\<lambda>(t, n). 3 \<le> n) xs)"
  by (induction xs rule: weak_loop.induct) simp_all

text \<open>
  Claim C6. With fewer than five questions in the history \<^verbatim>\<open>find_knowledge_gaps\<close>
  returns the one fixed prompting message, whatever the questions are. Otherwise every
  word longer than three characters is counted over all questions, the topics are ranked
  by falling count (topics of equal count stay in the order of their first occurrence),
  and there is one message for each of the first five topics that has a count of at
  least 3; without such a topic the result is the fixed no-weak-areas message.
\<close>

theorem knowledge_gaps:
  "(length (query_history self) < 5 \<longrightarrow>
      find_knowledge_gaps self =
        [''Upload more documents and ask more questions to identify knowledge gaps!'']) \<and>
   (5 \<le> length (query_history self) \<longrightarrow>
      find_knowledge_gaps self =
        identify_weak_areas (extract_common_topics (query_history self))) \<and>
   distinct (map fst (extract_common_topics queries)) \<and>
   map_of (extract_common_topics queries) w =
     (if w \<in> set (history_words queries)
      then Some (count_list (history_words queries) w) else None) \<and>
   mset (sorted_topics ts) = mset ts \<and>
   (\<forall>i j. i \<le> j \<and> j < length (sorted_topics ts) \<longrightarrow>
      snd (sorted_topics ts ! j) \<le> snd (sorted_topics ts ! i)) \<and>
   filter (\<lambda>x. snd x = n) (sorted_topics ts) = filter (\<lambda>x. snd x = n) ts \<and>
   identify_weak_areas ts =
     (if filter (\<lambda>(t, n). 3 \<le> n) (take 5 (sorted_topics ts)) \<noteq> []
      then map (\<lambda>(t, n). weak_area_message t n)
             (filter (\<lambda>(t, n). 3 \<le> n) (take 5 (sorted_topics ts)))
      else [''No specific weak areas identified yet''])"
proof (intro conjI impI allI)
  show "find_knowledge_gaps self =
        [''Upload more documents and ask more questions to identify knowledge gaps!'']"
    if "length (query_history self) < 5"
    using that by (simp add: find_knowledge_gaps_def)
  show "find_knowledge_gaps self =
        identify_weak_areas (extract_common_topics (query_history self))"
    if "5 \<le> length (query_history self)"
    using that by (simp add: find_knowledge_gaps_def)
  show "distinct (map fst (extract_common_topics queries))"
    by (rule extract_common_topics_counts)
  show "map_of (extract_common_topics queries) w =
     (if w \<in> set (history_words queries)
      then Some (count_list (history_words queries) w) else None)"
    by (rule extract_common_topics_counts)
  show "mset (sorted_topics ts) = mset ts"
    by (simp add: sorted_topics_def)
  show "snd (sorted_topics ts ! j) \<le> snd (sorted_topics ts ! i)"
    if "i \<le> j \<and> j < length (sorted_topics ts)" for i j
    using that sorted_topics_descending by blast
  have "filter (\<lambda>x. - int (snd x) = - int n) (sorted_topics ts) =
      filter (\<lambda>x. - int (snd x) = - int n) ts"
    unfolding sorted_topics_def by (rule sort_key_stable)
  then show "filter (\<lambda>x. snd x = n) (sorted_topics ts) = filter (\<lambda>x. snd x = n) ts"
    by simp
  have s5: "py_slice (sorted_topics ts) 0 5 = take 5 (sorted_topics ts)"
    using py_slice_prefix [of "sorted_topics ts" 5] by simp
  show "identify_weak_areas ts =
     (if filter (\<lambda>(t, n). 3 \<le> n) (take 5 (sorted_topics ts)) \<noteq> []
      then map (\<lambda>(t, n). weak_area_message t n)
             (filter (\<lambda>(t, n). 3 \<le> n) (take 5 (sorted_topics ts)))
      else [''No specific weak areas identified yet''])"
    unfolding identify_weak_areas_def Let_def s5 weak_loop_filter by simp
qed

theorem knowledge_gaps_witness:
  "length (query_history
       \<lparr>vector_store = \<lparr>search = (\<lambda>q n. (Inl SearchError :: py_error + unit search_results))\<rparr>,
        assessor = new_difficulty_assessor,
        query_history = [''mars mars mars'', ''mars'', ''mars'', ''mars'']\<rparr>) < 5 \<and>
   find_knowledge_gaps
       \<lparr>vector_store = \<lparr>search = (\<lambda>q n. (Inl SearchError :: py_error + unit search_results))\<rparr>,
        assessor = new_difficulty_assessor,
        query_history = [''mars mars mars'', ''mars'', ''mars'', ''mars'']\<rparr> =
     [''Upload more documents and ask more questions to identify knowledge gaps!''] \<and>
   5 \<le> length (query_history
       \<lparr>vector_store = \<lparr>search = (\<lambda>q n. (Inl SearchError :: py_error + unit search_results))\<rparr>,
        assessor = new_difficulty_assessor,
        query_history = [''what is mars'', ''mars and venus'', ''Mars again'', ''mars?'',
                         ''venus then venus'']\<rparr>) \<and>
   find_knowledge_gaps
       \<lparr>vector_store = \<lparr>search = (\<lambda>q n. (Inl SearchError :: py_error + unit search_results))\<rparr>,
        assessor = new_difficulty_assessor,
        query_history = [''what is mars'', ''mars and venus'', ''Mars again'', ''mars?'',
                         ''venus then venus'']\<rparr> =
     [weak_area_message ''mars'' 4, weak_area_message ''venus'' 3]"
proof -
  let ?vs = "\<lparr>search = (\<lambda>q n. (Inl SearchError :: py_error + unit search_results))\<rparr>"
  let ?a = "\<lparr>vector_store = ?vs, assessor = new_difficulty_assessor,
        query_history = [''mars mars mars'', ''mars'', ''mars'', ''mars'']\<rparr>"
  let ?h = "[''what is mars'', ''mars and venus'', ''Mars again'', ''mars?'', ''venus then venus'']"
  let ?b = "\<lparr>vector_store = ?vs, assessor = new_difficulty_assessor, query_history = ?h\<rparr>"
  have h1: "length (query_history ?a) < 5" by simp
  have h2: "5 \<le> length (query_history ?b)" by simp
  from knowledge_gaps [of ?a "[]" "[]" "[]" 0] h1
  have r1: "find_knowledge_gaps ?a =
      [''Upload more documents and ask more questions to identify knowledge gaps!'']"
    by blast
  from knowledge_gaps [of ?b "[]" "[]" "[]" 0] h2
  have "find_knowledge_gaps ?b = identify_weak_areas (extract_common_topics (query_history ?b))"
    by blast
  then have r2: "find_knowledge_gaps ?b = identify_weak_areas (extract_common_topics ?h)"
    by simp
  have "identify_weak_areas (extract_common_topics ?h) =
      [weak_area_message ''mars'' 4, weak_area_message ''venus'' 3]"
    by code_simp
  with r2 have r2': "find_knowledge_gaps ?b =
      [weak_area_message ''mars'' 4, weak_area_message ''venus'' 3]"
    by simp
  show ?thesis using h1 r1 h2 r2' by (intro conjI)
qed

section \<open>Properties of multiple-choice questions\<close>

lemma letters:
  "letter 0 = ''A''" "letter (Suc 0) = ''B''" "letter (Suc (Suc 0)) = ''C''"
  "letter (Suc (Suc (Suc 0))) = ''D''"
  by code_simp+

lemma upper_letters_fixed:
  "upper ''A'' = ''A''" "upper ''B'' = ''B''" "upper ''C'' = ''C''" "upper ''D'' = ''D''"
  by code_simp+

lemma index_of_member: "x \<in> set xs \<Longrightarrow> \<exists>k. index_of x xs = Some k"
  by (induction xs) auto

lemma fair_options:
  assumes "fair r"
  shows "\<exists>a b c d. shuffle_options r i ([key_term] @ take 3 dummy_options) = [a, b, c, d] \<and>
           key_term \<in> {a, b, c, d}"
proof -
  let ?opts = "shuffle_options r i ([key_term] @ take 3 dummy_options)"
  have m: "mset ?opts = mset ([key_term] @ take 3 dummy_options)"
    using assms unfolding fair_def by blast
  then have "size (mset ?opts) = size (mset ([key_term] @ take 3 dummy_options))" by simp
  then have "length ?opts = 4" by (simp add: dummy_options_def)
  then obtain a b c d where e: "?opts = [a, b, c, d]"
    by (auto simp: length_Suc_conv numeral_eq_Suc)
  have "key_term \<in># mset ?opts" unfolding m by simp
  then have "key_term \<in> set ?opts" by simp
  then have "key_term \<in> {a, b, c, d}" unfolding e by simp
  with e show ?thesis by blast
qed

lemma multiple_choice_item_skip:
  "findall_capitalized sentence = [] \<Longrightarrow> multiple_choice_item r i sentence = Inr None"
  unfolding multiple_choice_item_def Let_def by (simp only: simp_thms if_True)

lemma multiple_choice_item_unfold:
  "findall_capitalized sentence \<noteq> [] \<Longrightarrow>
   shuffle_options r i ([choice_term r i (findall_capitalized sentence)] @ take 3 dummy_options)
     = options \<Longrightarrow>
   multiple_choice_item r i sentence =
     (case index_of (choice_term r i (findall_capitalized sentence)) options of
        None \<Rightarrow> Inl ValueError
      | Some k \<Rightarrow>
          Inr (Some (MultipleChoice
            (''Fill in the blank: '' @
               replace_all (choice_term r i (findall_capitalized sentence)) ''____'' sentence)
            (map (\<lambda>(j, opt). (letter j, opt)) (enumerate_from 0 options))
            (letter k))))"
  unfolding multiple_choice_item_def Let_def by (simp only: if_False)

lemma multiple_choice_item_no_error:
  assumes "fair r"
  shows "\<exists>x. multiple_choice_item r i sentence = Inr x"
proof (cases "findall_capitalized sentence = []")
  case True
  then show ?thesis using multiple_choice_item_skip by blast
next
  case False
  let ?k = "choice_term r i (findall_capitalized sentence)"
  obtain a b c d where e: "shuffle_options r i ([?k] @ take 3 dummy_options) = [a, b, c, d]"
    and k: "?k \<in> {a, b, c, d}"
    using fair_options [OF assms] by blast
  have "?k \<in> set [a, b, c, d]" using k by simp
  from index_of_member [OF this] obtain n where n: "index_of ?k [a, b, c, d] = Some n"
    by blast
  show ?thesis
    unfolding multiple_choice_item_unfold [OF False e] n by (simp only: option.case) blast
qed

lemma options_enumerated:
  "map (\<lambda>(j, opt). (letter j, opt)) (enumerate_from 0 [a, b, c, d]) =
     [(''A'', a), (''B'', b), (''C'', c), (''D'', d)]"
  by (simp add: letters)

lemma multiple_choice_item_shape:
  assumes "fair r" and "multiple_choice_item r i sentence = Inr (Some q)"
  obtains key_term opts correct where
    "q = MultipleChoice
           (''Fill in the blank: '' @ replace_all key_term ''____'' sentence) opts correct"
    and "key_term \<in> set (findall_capitalized sentence)"
    and "map fst opts = [''A'', ''B'', ''C'', ''D'']"
    and "map_of opts correct = Some key_term"
    and "correct \<in> set [''A'', ''B'', ''C'', ''D'']"
proof -
  note shape = that
  have ne: "findall_capitalized sentence \<noteq> []"
    using assms(2) multiple_choice_item_skip [of sentence r i] by auto
  let ?k = "choice_term r i (findall_capitalized sentence)"
  let ?t = "''Fill in the blank: '' @ replace_all ?k ''____'' sentence"
  have kin: "?k \<in> set (findall_capitalized sentence)"
    using assms(1) ne unfolding fair_def by blast
  obtain a b c d where e: "shuffle_options r i ([?k] @ take 3 dummy_options) = [a, b, c, d]"
    and k: "?k \<in> {a, b, c, d}"
    using fair_options [OF assms(1)] by blast
  let ?opts = "[(''A'', a), (''B'', b), (''C'', c), (''D'', d)]"
  have item: "index_of ?k [a, b, c, d] = Some n \<Longrightarrow> q = MultipleChoice ?t ?opts (letter n)" for n
    using assms(2) unfolding multiple_choice_item_unfold [OF ne e] options_enumerated
    by (simp only: option.case sum.inject option.inject)
  have keys: "map fst ?opts = [''A'', ''B'', ''C'', ''D'']" by simp
  have final: thesis
    if "q = MultipleChoice ?t ?opts correct" and "map_of ?opts correct = Some ?k"
      and "correct \<in> set [''A'', ''B'', ''C'', ''D'']" for correct
    by (rule shape [OF that(1) kin keys that(2) that(3)])
  consider (A) "a = ?k" | (B) "a \<noteq> ?k" "b = ?k" | (C) "a \<noteq> ?k" "b \<noteq> ?k" "c = ?k"
    | (D) "a \<noteq> ?k" "b \<noteq> ?k" "c \<noteq> ?k" "d = ?k"
    using k by auto
  then show thesis
  proof cases
    case A
    then have "index_of ?k [a, b, c, d] = Some 0" by simp
    from item [OF this] have q: "q = MultipleChoice ?t ?opts ''A''" by (simp only: letters)
    have m: "map_of ?opts ''A'' = Some ?k" using A by simp
    have c: "''A'' \<in> set [''A'', ''B'', ''C'', ''D'']" by simp
    show thesis by (rule final [OF q m c])
  next
    case B
    then have "index_of ?k [a, b, c, d] = Some (Suc 0)" by simp
    from item [OF this] have q: "q = MultipleChoice ?t ?opts ''B''" by (simp only: letters)
    have m: "map_of ?opts ''B'' = Some ?k" using B by simp
    have c: "''B'' \<in> set [''A'', ''B'', ''C'', ''D'']" by simp
    show thesis by (rule final [OF q m c])
  next
    case C
    then have "index_of ?k [a, b, c, d] = Some (Suc (Suc 0))" by simp
    from item [OF this] have q: "q = MultipleChoice ?t ?opts ''C''" by (simp only: letters)
    have m: "map_of ?opts ''C'' = Some ?k" using C by simp
    have c: "''C'' \<in> set [''A'', ''B'', ''C'', ''D'']" by simp
    show thesis by (rule final [OF q m c])
  next
    case D
    then have "index_of ?k [a, b, c, d] = Some (Suc (Suc (Suc 0)))" by simp
    from item [OF this] have q: "q = MultipleChoice ?t ?opts ''D''" by (simp only: letters)
    have m: "map_of ?opts ''D'' = Some ?k" using D by simp
    have c: "''D'' \<in> set [''A'', ''B'', ''C'', ''D'']" by simp
    show thesis by (rule final [OF q m c])
  qed
qed

lemma multiple_choice_loop_items:
  assumes "fair r"
  shows "\<exists>qs. multiple_choice_loop r ss idx = Inr qs \<and>
           (\<forall>q \<in> set qs. \<exists>i \<in> set idx. multiple_choice_item r i (ss ! i) = Inr (Some q))"
proof (induction idx)
  case Nil
  show ?case by simp
next
  case (Cons i idx)
  then obtain qs where l: "multiple_choice_loop r ss idx = Inr qs"
    and p: "\<forall>q \<in> set qs. \<exists>j \<in> set idx. multiple_choice_item r j (ss ! j) = Inr (Some q)"
    by blast
  obtain x where x: "multiple_choice_item r i (ss ! i) = Inr x"
    using multiple_choice_item_no_error [OF assms] by blast
  show ?case
  proof (cases x)
    case None
    then show ?thesis using x l p by auto
  next
    case (Some q)
    then show ?thesis using x l p by auto
  qed
qed

lemma true_false_loop_shape:
  "q \<in> set (true_false_loop ss idx) \<Longrightarrow> \<exists>t c. q = TrueFalse t c"
  by (induction idx) (auto simp: true_false_item_def Let_def)

lemma short_answer_loop_shape:
  "q \<in> set (short_answer_loop r ss idx) \<Longrightarrow> \<exists>t c. q = ShortAnswer t c"
  by (induction idx) (auto simp: short_answer_item_def Let_def split: option.splits if_splits)

lemma generate_multiple_choice_shape:
  assumes "fair r" and "generate_multiple_choice r content num = Inr qs" and "q \<in> set qs"
  shows "\<exists>i sentence. multiple_choice_item r i sentence = Inr (Some q)"
proof -
  let ?ss = "candidate_sentences content"
  obtain qs' where l: "multiple_choice_loop r ?ss (question_indices num ?ss) = Inr qs'"
    and p: "\<forall>q \<in> set qs'. \<exists>i \<in> set (question_indices num ?ss).
              multiple_choice_item r i (?ss ! i) = Inr (Some q)"
    using multiple_choice_loop_items [OF assms(1)] by blast
  have "qs' = qs" using l assms(2) by (simp add: generate_multiple_choice_def Let_def)
  then show ?thesis using p assms(3) by blast
qed

lemma generate_quiz_questions:
  assumes "generate_quiz store r t num qtype = Inr (Quiz qz)"
  shows "\<exists>content n mc.
           (generate_multiple_choice r content n = Inr mc \<and> questions qz = mc) \<or>
           questions qz = generate_true_false content n \<or>
           questions qz = generate_short_answer r content n \<or>
           (generate_multiple_choice r content (n div 3) = Inr mc \<and>
            questions qz =
              shuffle_questions r
                (mc @ generate_true_false content (n div 3) @
                 generate_short_answer r content (n - n div 3 - n div 3)))"
proof (cases "search store t 10")
  case (Inl e)
  then show ?thesis using assms unfolding generate_quiz_def by simp
next
  case (Inr found)
  show ?thesis
  proof (cases "documents found = []")
    case True
    then show ?thesis using assms Inr unfolding generate_quiz_def by simp
  next
    case False
    let ?c = "join '' '' (documents found)"
    let ?g = "(if qtype = ''multiple_choice'' then generate_multiple_choice r ?c num
               else if qtype = ''true_false'' then Inr (generate_true_false ?c num)
               else if qtype = ''short_answer'' then Inr (generate_short_answer r ?c num)
               else generate_mixed_quiz r ?c num)"
    have g: "generate_quiz store r t num qtype =
        (case ?g of Inl e \<Rightarrow> Inl e
         | Inr qs \<Rightarrow> Inr (Quiz \<lparr>topic = t, num_questions = length qs,
                                  questions = qs, quiz_type = qtype\<rparr>))"
      unfolding generate_quiz_def Let_def Inr using False
      by (simp only: sum.case if_False)
    obtain qs where qs: "?g = Inr qs" and qz: "questions qz = qs"
    proof (cases ?g)
      case (Inl e)
      then show ?thesis using assms unfolding g by (simp only: sum.case sum.distinct)
    next
      case (Inr qs)
      then have "Quiz \<lparr>topic = t, num_questions = length qs,
                        questions = qs, quiz_type = qtype\<rparr> = Quiz qz"
        using assms unfolding g by (simp only: sum.case sum.inject)
      then have "questions qz = qs" by auto
      then show ?thesis using that Inr by blast
    qed
    consider (mc) "generate_multiple_choice r ?c num = Inr qs"
      | (tf) "qs = generate_true_false ?c num"
      | (sa) "qs = generate_short_answer r ?c num"
      | (mixed) "generate_mixed_quiz r ?c num = Inr qs"
      using qs by (metis sum.inject(2))
    then show ?thesis
    proof cases
      case mc
      then show ?thesis using qz by blast
    next
      case tf
      then show ?thesis using qz by blast
    next
      case sa
      then show ?thesis using qz by blast
    next
      case mixed
      then obtain m where "generate_multiple_choice r ?c (num div 3) = Inr m"
        and "qs = shuffle_questions r
                (m @ generate_true_false ?c (num div 3) @
                 generate_short_answer r ?c (num - num div 3 - num div 3))"
        unfolding generate_mixed_quiz_def Let_def by (auto split: sum.splits)
      then show ?thesis using qz by blast
    qed
  qed
qed

lemma generate_quiz_multiple_choice_item:
  assumes "fair r" and "generate_quiz store r t num qtype = Inr (Quiz qz)"
    and "MultipleChoice text opts correct \<in> set (questions qz)"
  shows "\<exists>i sentence. multiple_choice_item r i sentence =
           Inr (Some (MultipleChoice text opts correct))"
proof -
  let ?q = "MultipleChoice text opts correct"
  have tf: "?q \<notin> set (generate_true_false content n)" for content n
    unfolding generate_true_false_def Let_def using true_false_loop_shape by blast
  have sa: "?q \<notin> set (generate_short_answer r content n)" for content n
    unfolding generate_short_answer_def Let_def using short_answer_loop_shape by blast
  obtain content n mc where c:
    "(generate_multiple_choice r content n = Inr mc \<and> questions qz = mc) \<or>
     questions qz = generate_true_false content n \<or>
     questions qz = generate_short_answer r content n \<or>
     (generate_multiple_choice r content (n div 3) = Inr mc \<and>
      questions qz =
        shuffle_questions r
          (mc @ generate_true_false content (n div 3) @
           generate_short_answer r content (n - n div 3 - n div 3)))"
    using generate_quiz_questions [OF assms(2)] by blast
  have sh: "set (shuffle_questions r qs) = set qs" for qs
    using assms(1) unfolding fair_def by (metis mset_eq_setD)
  from c assms(3) tf sa sh
  have "\<exists>k. generate_multiple_choice r content k = Inr mc \<and> ?q \<in> set mc"
    by (elim disjE) auto
  then obtain k where "generate_multiple_choice r content k = Inr mc" and "?q \<in> set mc"
    by blast
  then show ?thesis using generate_multiple_choice_shape [OF assms(1)] by blast
qed

lemma upper_option_key: "x \<in> set [''A'', ''B'', ''C'', ''D''] \<Longrightarrow> upper x = x"
  using upper_letters_fixed by auto

text \<open>
  Claim C9. Every multiple-choice question of a generated quiz has exactly the four
  options A, B, C and D; the option stored under the recorded correct letter is the
  capitalised key term that the question text replaces by the blank. An answer is marked
  correct exactly when, in upper case, it is the recorded letter, so this letter is the
  only one of the four option letters that is marked correct.
\<close>

theorem multiple_choice_well_formed:
  assumes "fair r" and "generate_quiz store r t num qtype = Inr (Quiz qz)"
    and "MultipleChoice text opts correct \<in> set (questions qz)"
  shows "map fst opts = [''A'', ''B'', ''C'', ''D''] \<and>
         (\<exists>sentence key_term.
            key_term \<in> set (findall_capitalized sentence) \<and>
            text = ''Fill in the blank: '' @ replace_all key_term ''____'' sentence \<and>
            map_of opts correct = Some key_term) \<and>
         correct \<in> set (map fst opts) \<and>
         (\<forall>answer. is_correct (MultipleChoice text opts correct) answer \<longleftrightarrow>
                     upper answer = correct) \<and>
         (\<forall>key \<in> set (map fst opts).
            is_correct (MultipleChoice text opts correct) key \<longleftrightarrow> key = correct)"
proof -
  obtain i sentence where it:
    "multiple_choice_item r i sentence = Inr (Some (MultipleChoice text opts correct))"
    using generate_quiz_multiple_choice_item [OF assms] by blast
  obtain key_term opts' correct' where
    q: "MultipleChoice text opts correct =
        MultipleChoice (''Fill in the blank: '' @ replace_all key_term ''____'' sentence)
          opts' correct'"
    and kin: "key_term \<in> set (findall_capitalized sentence)"
    and keys': "map fst opts' = [''A'', ''B'', ''C'', ''D'']"
    and m': "map_of opts' correct' = Some key_term"
    and c': "correct' \<in> set [''A'', ''B'', ''C'', ''D'']"
    by (rule multiple_choice_item_shape [OF assms(1) it])
  from q have tx: "text = ''Fill in the blank: '' @ replace_all key_term ''____'' sentence"
    and o: "opts = opts'" and co: "correct = correct'"
    by (simp_all only: question.inject)
  have keys: "map fst opts = [''A'', ''B'', ''C'', ''D'']" unfolding o by (rule keys')
  have m: "map_of opts correct = Some key_term" unfolding o co by (rule m')
  have c: "correct \<in> set [''A'', ''B'', ''C'', ''D'']" unfolding co by (rule c')
  have cin: "correct \<in> set (map fst opts)" unfolding keys by (rule c)
  have uc: "upper correct = correct" by (rule upper_option_key [OF c])
  have ex: "\<exists>sentence key_term.
            key_term \<in> set (findall_capitalized sentence) \<and>
            text = ''Fill in the blank: '' @ replace_all key_term ''____'' sentence \<and>
            map_of opts correct = Some key_term"
  proof (rule exI [of _ sentence], rule exI [of _ key_term], intro conjI)
    show "key_term \<in> set (findall_capitalized sentence)" by (rule kin)
    show "text = ''Fill in the blank: '' @ replace_all key_term ''____'' sentence" by (rule tx)
    show "map_of opts correct = Some key_term" by (rule m)
  qed
  have all: "\<forall>answer. is_correct (MultipleChoice text opts correct) answer \<longleftrightarrow>
                     upper answer = correct"
    by (simp only: is_correct.simps uc) simp
  have among: "\<forall>key \<in> set (map fst opts).
            is_correct (MultipleChoice text opts correct) key \<longleftrightarrow> key = correct"
  proof
    fix key assume "key \<in> set (map fst opts)"
    then have "key \<in> set [''A'', ''B'', ''C'', ''D'']" unfolding keys .
    then have "upper key = key" by (rule upper_option_key)
    then show "is_correct (MultipleChoice text opts correct) key \<longleftrightarrow> key = correct"
      by (simp only: is_correct.simps uc)
  qed
  show ?thesis
  proof (intro conjI)
    show "map fst opts = [''A'', ''B'', ''C'', ''D'']" by (rule keys)
    show "\<exists>sentence key_term.
            key_term \<in> set (findall_capitalized sentence) \<and>
            text = ''Fill in the blank: '' @ replace_all key_term ''____'' sentence \<and>
            map_of opts correct = Some key_term" by (rule ex)
    show "correct \<in> set (map fst opts)" by (rule cin)
    show "\<forall>answer. is_correct (MultipleChoice text opts correct) answer \<longleftrightarrow>
                     upper answer = correct" by (rule all)
    show "\<forall>key \<in> set (map fst opts).
            is_correct (MultipleChoice text opts correct) key \<longleftrightarrow> key = correct"
      by (rule among)
  qed
qed

theorem multiple_choice_well_formed_witness:
  "fair \<lparr>choice_term = (\<lambda>i xs. hd xs), choice_starter = (\<lambda>i xs. hd xs),
         shuffle_options = (\<lambda>i xs. rev xs), shuffle_questions = (\<lambda>qs. qs)\<rparr> \<and>
   generate_quiz
     \<lparr>search = (\<lambda>q n. Inr \<lparr>documents = [''The Sun is a very hot star in the Sky.''],
                              metadatas = [()]\<rparr>)\<rparr>
     \<lparr>choice_term = (\<lambda>i xs. hd xs), choice_starter = (\<lambda>i xs. hd xs),
      shuffle_options = (\<lambda>i xs. rev xs), shuffle_questions = (\<lambda>qs. qs)\<rparr>
     ''sun'' 1 ''multiple_choice'' =
     Inr (Quiz \<lparr>topic = ''sun'', num_questions = 1,
            questions =
              [MultipleChoice ''Fill in the blank: ____ Sun is a very hot star in the Sky''
                 [(''A'', ''Option C''), (''B'', ''Option B''), (''C'', ''Option A''),
                  (''D'', ''The'')] ''D''],
            quiz_type = ''multiple_choice''\<rparr>) \<and>
   map fst [(''A'', ''Option C''), (''B'', ''Option B''), (''C'', ''Option A''), (''D'', ''The'')] =
     [''A'', ''B'', ''C'', ''D''] \<and>
   is_correct
     (MultipleChoice ''Fill in the blank: ____ Sun is a very hot star in the Sky''
        [(''A'', ''Option C''), (''B'', ''Option B''), (''C'', ''Option A''), (''D'', ''The'')]
        ''D'') ''D'' \<and>
   \<not> is_correct
     (MultipleChoice ''Fill in the blank: ____ Sun is a very hot star in the Sky''
        [(''A'', ''Option C''), (''B'', ''Option B''), (''C'', ''Option A''), (''D'', ''The'')]
        ''D'') ''A''"
proof -
  let ?r = "\<lparr>choice_term = (\<lambda>i xs. hd xs), choice_starter = (\<lambda>i xs. hd xs),
         shuffle_options = (\<lambda>i xs. rev xs), shuffle_questions = (\<lambda>qs. qs)\<rparr>"
  let ?s = "\<lparr>search = (\<lambda>q n. Inr \<lparr>documents = [''The Sun is a very hot star in the Sky.''],
                              metadatas = [()]\<rparr>)\<rparr>"
  let ?o = "[(''A'', ''Option C''), (''B'', ''Option B''), (''C'', ''Option A''), (''D'', ''The'')]"
  let ?t = "''Fill in the blank: ____ Sun is a very hot star in the Sky''"
  let ?z = "\<lparr>topic = ''sun'', num_questions = 1,
            questions = [MultipleChoice ?t ?o ''D''], quiz_type = ''multiple_choice''\<rparr>"
  have f: "fair ?r" by (simp add: fair_def)
  have g: "generate_quiz ?s ?r ''sun'' 1 ''multiple_choice'' = Inr (Quiz ?z)" by code_simp
  have i: "MultipleChoice ?t ?o ''D'' \<in> set (questions ?z)" by simp
  note w = multiple_choice_well_formed [OF f g i]
  from w have k: "map fst ?o = [''A'', ''B'', ''C'', ''D'']" by (rule conjunct1)
  from w have among: "\<forall>key \<in> set (map fst ?o).
      is_correct (MultipleChoice ?t ?o ''D'') key \<longleftrightarrow> key = ''D''"
    by (elim conjE)
  have d: "''D'' \<in> set (map fst ?o)" and a: "''A'' \<in> set (map fst ?o)" by simp_all
  from among d have yes: "is_correct (MultipleChoice ?t ?o ''D'') ''D''" by simp
  from bspec [OF among a] have no: "\<not> is_correct (MultipleChoice ?t ?o ''D'') ''A''" by simp
  show ?thesis using f g k yes no by (intro conjI)
qed

end
